theory Spec2Isabelle
  imports Complex_Main "HOL-Library.List_Lexorder" "HOL-Library.Sublist" "HOL-Library.Multiset"
begin

section \<open>Python strings\<close>

text \<open>
  A Python \<open>str\<close> is a sequence of Unicode code points: \<open>len\<close> counts code points and
  comparison is lexicographic on them.  A string is therefore a list of code points
  (the integers that \<open>ord\<close> returns), ordered lexicographically.  \<open>str_of\<close> writes an ASCII literal.
\<close>

type_synonym str = "int list"

definition str_of :: "string \<Rightarrow> str" where
  "str_of cs = map of_char cs"

text \<open>
  The Unicode tables of the Python runtime (\<open>str.isalnum\<close>, \<open>str.isdecimal\<close>,
  \<open>str.isspace\<close>, \<open>str.lower\<close>) and the morphological tokenizer \<open>Okt.morphs\<close> belong
  to libraries.  Their ASCII rows are fixed below; everything else is a parameter.
\<close>

record textlib =
  uni_alnum :: "int \<Rightarrow> bool"
  uni_decimal :: "int \<Rightarrow> bool"
  uni_space :: "int \<Rightarrow> bool"
  str_lower :: "str \<Rightarrow> str"
  okt_morphs :: "str \<Rightarrow> str list"

text \<open>The regular-expression class \<open>\d\<close>: the ASCII digits, and the decimal digits beyond ASCII.\<close>

definition re_digit :: "textlib \<Rightarrow> int \<Rightarrow> bool" where
  "re_digit L c = (if c < 128 then 48 \<le> c \<and> c \<le> 57 else uni_decimal L c)"

text \<open>The class \<open>\s\<close>, which is also what \<open>str.strip\<close> removes: tab to carriage return,
  the four separators \<open>0x1c\<close> to \<open>0x1f\<close>, the space, and the white space beyond ASCII.\<close>

definition re_space :: "textlib \<Rightarrow> int \<Rightarrow> bool" where
  "re_space L c =
     (if c < 128 then (9 \<le> c \<and> c \<le> 13) \<or> (28 \<le> c \<and> c \<le> 32) else uni_space L c)"

text \<open>The class \<open>\w\<close>: ASCII letters, digits and the underscore, and the alphanumerics beyond ASCII.\<close>

definition re_word :: "textlib \<Rightarrow> int \<Rightarrow> bool" where
  "re_word L c =
     (if c < 128
      then (48 \<le> c \<and> c \<le> 57) \<or> (65 \<le> c \<and> c \<le> 90) \<or> c = 95 \<or> (97 \<le> c \<and> c \<le> 122)
      else uni_alnum L c)"

definition strip :: "textlib \<Rightarrow> str \<Rightarrow> str" where
  "strip L s = rev (dropWhile (re_space L) (rev (dropWhile (re_space L) s)))"

text \<open>\<open>re.sub(r'\s+', ' ', text)\<close>: every maximal run of white space becomes one space.\<close>

function collapse_spaces :: "textlib \<Rightarrow> str \<Rightarrow> str" where
  "collapse_spaces L [] = []"
| "collapse_spaces L (c # cs) =
     (if re_space L c then 32 # collapse_spaces L (dropWhile (re_space L) cs)
      else c # collapse_spaces L cs)"
  by pat_completeness auto
termination
  by (relation "measure (\<lambda>(L, s). length s)")
     (auto simp: less_Suc_eq_le length_dropWhile_le)

section \<open>TextPreprocessor\<close>

text \<open>
  \<open>clean_text\<close>.  A cell of the data frame is either missing (\<open>pd.isna\<close>, here \<open>None\<close>) or
  a string.  The three substitutions are: every character that is neither \<open>\w\<close> nor \<open>\s\<close>
  becomes a space; every run of digits is deleted; white space is collapsed and stripped.
\<close>

definition clean_text :: "textlib \<Rightarrow> str option \<Rightarrow> str" where
  "clean_text L text =
     (case text of
        None \<Rightarrow> []
      | Some s \<Rightarrow>
          (let t1 = map (\<lambda>c. if \<not> re_word L c \<and> \<not> re_space L c then 32 else c) s;
               t2 = filter (\<lambda>c. \<not> re_digit L c) t1
           in strip L (collapse_spaces L t2)))"

text \<open>The builtin stop words of \<open>extract_keywords\<close>, as code points.\<close>

definition builtin_stopwords :: "str list" where
  "builtin_stopwords =
     [[51060], [44536], [51200], [44163], [49688], [51080], [54616], [46104], [44057],
      [46308], [47566], [51339], [51096], [47588, 50864], [51221, 47568], [45320, 47924],
      [50500, 51452], [50756, 51204], [51652, 51676], [54620, 48264], [51312, 44552]]"

text \<open>
  \<open>extract_keywords\<close>.  The optional word lists are \<open>None\<close> by default; \<open>if exclude_words\<close>
  and \<open>if include_words\<close> hold for a list that is present and not empty.
\<close>

definition truthy :: "'a list option \<Rightarrow> bool" where
  "truthy xs = (case xs of None \<Rightarrow> False | Some ys \<Rightarrow> ys \<noteq> [])"

definition extract_keywords ::
  "textlib \<Rightarrow> str \<Rightarrow> str list option \<Rightarrow> str list option \<Rightarrow> str list" where
  "extract_keywords L text exclude_words include_words =
     (if text = [] then []
      else
        let morphs = okt_morphs L text;
            stopwords = set builtin_stopwords \<union>
              (if truthy exclude_words then set (the exclude_words) else {});
            keywords = filter (\<lambda>word. length word \<ge> 2 \<and> word \<notin> stopwords) morphs
        in if truthy include_words \<and>
              \<not> (\<exists>inc \<in> set (the include_words). sublist (str_lower L inc) (str_lower L text))
           then []
           else keywords)"

text \<open>
  \<open>get_cooccurrence_matrix\<close>.  The dictionary is a list of items in insertion order;
  assigning to a key that is present keeps its place.
\<close>

type_synonym cooccurrence = "((str \<times> str) \<times> int) list"

fun dict_set :: "'k \<Rightarrow> 'v \<Rightarrow> ('k \<times> 'v) list \<Rightarrow> ('k \<times> 'v) list" where
  "dict_set k v [] = [(k, v)]"
| "dict_set k v ((k', v') # d) = (if k' = k then (k, v) # d else (k', v') # dict_set k v d)"

definition dict_get :: "('k \<times> 'v) list \<Rightarrow> 'k \<Rightarrow> 'v \<Rightarrow> 'v" where
  "dict_get d k dflt = (case map_of d k of None \<Rightarrow> dflt | Some v \<Rightarrow> v)"

text \<open>\<open>tuple(sorted([word1, word2]))\<close>; the sort is stable.\<close>

definition sorted_pair :: "str \<Rightarrow> str \<Rightarrow> str \<times> str" where
  "sorted_pair word1 word2 = (if word2 < word1 then (word2, word1) else (word1, word2))"

definition count_pair :: "str \<times> str \<Rightarrow> cooccurrence \<Rightarrow> cooccurrence" where
  "count_pair pair d = dict_set pair (dict_get d pair 0 + 1) d"

text \<open>\<open>range(max(0, i - window_size), min(len(keywords), i + window_size + 1))\<close>\<close>

definition window_range :: "nat \<Rightarrow> int \<Rightarrow> nat \<Rightarrow> nat list" where
  "window_range i window_size n =
     [nat (max 0 (int i - window_size)) ..< nat (min (int n) (int i + window_size + 1))]"

definition count_at :: "str list \<Rightarrow> int \<Rightarrow> nat \<Rightarrow> cooccurrence \<Rightarrow> cooccurrence" where
  "count_at keywords window_size i d =
     fold (\<lambda>j d. if i \<noteq> j then count_pair (sorted_pair (keywords ! i) (keywords ! j)) d else d)
       (window_range i window_size (length keywords)) d"

definition count_document :: "str list \<Rightarrow> int \<Rightarrow> cooccurrence \<Rightarrow> cooccurrence" where
  "count_document keywords window_size d =
     fold (count_at keywords window_size) [0 ..< length keywords] d"

definition get_cooccurrence_matrix ::
  "textlib \<Rightarrow> str list \<Rightarrow> str list option \<Rightarrow> str list option \<Rightarrow> int \<Rightarrow> cooccurrence" where
  "get_cooccurrence_matrix L texts exclude_words include_words window_size =
     fold (\<lambda>text d. count_document (extract_keywords L text exclude_words include_words)
                      window_size d)
       texts []"

section \<open>NetworkAnalyzer\<close>

text \<open>
  The undirected graph of networkx (\<open>nx.Graph\<close>): the nodes in insertion order, each once,
  and one entry per undirected edge with its \<open>weight\<close> attribute.  Adding an edge that is
  already there, in either direction, only overwrites its weight; a self-loop is an
  ordinary edge.
\<close>

record nx_graph =
  nodes :: "str list"
  edges :: "((str \<times> str) \<times> int) list"

definition empty_graph :: nx_graph where
  "empty_graph = \<lparr>nodes = [], edges = []\<rparr>"

definition same_edge :: "str \<times> str \<Rightarrow> str \<times> str \<Rightarrow> bool" where
  "same_edge e f = (e = f \<or> e = (snd f, fst f))"

definition add_node :: "str \<Rightarrow> str list \<Rightarrow> str list" where
  "add_node n ns = (if n \<in> set ns then ns else ns @ [n])"

fun set_edge :: "str \<times> str \<Rightarrow> int \<Rightarrow> ((str \<times> str) \<times> int) list \<Rightarrow> ((str \<times> str) \<times> int) list" where
  "set_edge e w [] = [(e, w)]"
| "set_edge e w ((f, w') # es) =
     (if same_edge e f then (f, w) # es else (f, w') # set_edge e w es)"

definition add_edge :: "str \<Rightarrow> str \<Rightarrow> int \<Rightarrow> nx_graph \<Rightarrow> nx_graph" where
  "add_edge u v w g =
     \<lparr>nodes = add_node v (add_node u (nodes g)), edges = set_edge (u, v) w (edges g)\<rparr>"

definition has_edge :: "nx_graph \<Rightarrow> str \<Rightarrow> str \<Rightarrow> bool" where
  "has_edge g u v = list_ex (\<lambda>(e, w). same_edge (u, v) e) (edges g)"

definition number_of_nodes :: "nx_graph \<Rightarrow> nat" where
  "number_of_nodes g = length (nodes g)"

definition number_of_edges :: "nx_graph \<Rightarrow> nat" where
  "number_of_edges g = length (edges g)"

record network_analyzer =
  graph :: "nx_graph option"

definition create_network ::
  "network_analyzer \<Rightarrow> cooccurrence \<Rightarrow> int \<Rightarrow> nx_graph \<times> network_analyzer" where
  "create_network self cooccurrence_dict min_frequency =
     (let g = fold (\<lambda>((word1, word2), freq) g.
                      if freq \<ge> min_frequency then add_edge word1 word2 freq g else g)
                cooccurrence_dict empty_graph
      in (g, self\<lparr>graph := Some g\<rparr>))"

section \<open>An ASCII text library\<close>

text \<open>
  The examples are stated for texts of ASCII words separated by single spaces, under a
  tokenizer that returns the space-separated words.  \<open>ascii_textlib\<close> is that reading:
  no character beyond ASCII is classified, lower-casing acts on the ASCII capitals.
\<close>

fun split_words :: "str \<Rightarrow> str \<Rightarrow> str list" where
  "split_words cur [] = (if cur = [] then [] else [cur])"
| "split_words cur (c # cs) =
     (if c = 32 then (if cur = [] then [] else [cur]) @ split_words [] cs
      else split_words (cur @ [c]) cs)"

definition ascii_lower :: "str \<Rightarrow> str" where
  "ascii_lower s = map (\<lambda>c. if 65 \<le> c \<and> c \<le> 90 then c + 32 else c) s"

definition ascii_textlib :: textlib where
  "ascii_textlib =
     \<lparr>uni_alnum = (\<lambda>c. False), uni_decimal = (\<lambda>c. False), uni_space = (\<lambda>c. False),
      str_lower = ascii_lower, okt_morphs = split_words []\<rparr>"

definition example_texts :: "str list" where
  "example_texts =
     [str_of ''service great clean'', str_of ''service great clean'', str_of ''service clean'',
      str_of ''room small clean'', str_of ''view nice bed comfortable'']"

section \<open>Centrality metrics\<close>

text \<open>
  Exceptions are values.  The four centrality routines belong to networkx; they are
  written out here from the algorithms networkx documents, on the undirected graph above
  and with the default arguments that the source leaves in place (no edge weights, all
  nodes, normalised).  Floating-point scores are idealised as real numbers.
\<close>

datatype py_error =
  ValueError | IndexError | AttributeError | NotFittedError
  | PowerIterationFailedConvergence | NetworkXPointlessConcept

text \<open>The nodes adjacent to a node; a node with a self-loop is its own neighbour, once.\<close>

definition neighbors :: "nx_graph \<Rightarrow> str \<Rightarrow> str list" where
  "neighbors g n =
     concat (map (\<lambda>x. if fst (fst x) = n then [snd (fst x)]
                       else if snd (fst x) = n then [fst (fst x)] else [])
               (edges g))"

text \<open>
  Degree centrality: 1 for every node of a graph with at most one node, else the degree
  divided by \<open>n - 1\<close>, where a self-loop counts twice in the degree.
\<close>

definition degree :: "nx_graph \<Rightarrow> str \<Rightarrow> nat" where
  "degree g n =
     sum_list (map (\<lambda>x. (if fst (fst x) = n then 1 else 0) + (if snd (fst x) = n then 1 else 0))
       (edges g))"

definition nx_degree_centrality :: "nx_graph \<Rightarrow> (str \<times> real) list" where
  "nx_degree_centrality g =
     (if length (nodes g) \<le> 1 then map (\<lambda>n. (n, 1)) (nodes g)
      else let s = 1 / (real (length (nodes g)) - 1)
           in map (\<lambda>n. (n, real (degree g n) * s)) (nodes g))"

text \<open>
  Closeness centrality.  The shortest-path lengths from a node are found breadth first,
  level by level: the nodes of the frontier are at distance \<open>d\<close>, their unseen neighbours
  form the next frontier.  A graph has no more levels than nodes, which bounds the search.
  The score of a node that reaches \<open>r\<close> other nodes at total distance \<open>totsp\<close> is
  \<open>r / totsp\<close>, scaled by \<open>r / (n - 1)\<close>; it is 0 for a node that reaches no other.
\<close>

fun bfs_levels :: "nx_graph \<Rightarrow> nat \<Rightarrow> nat \<Rightarrow> str list \<Rightarrow> str list \<Rightarrow> (str \<times> nat) list" where
  "bfs_levels g 0 d frontier seen = []"
| "bfs_levels g (Suc fuel) d frontier seen =
     (if frontier = [] then []
      else let next = remdups (filter (\<lambda>m. m \<notin> set seen) (concat (map (neighbors g) frontier)))
           in map (\<lambda>n. (n, d)) frontier @ bfs_levels g fuel (Suc d) next (seen @ next))"

definition shortest_path_length :: "nx_graph \<Rightarrow> str \<Rightarrow> (str \<times> nat) list" where
  "shortest_path_length g n = bfs_levels g (Suc (length (nodes g))) 0 [n] [n]"

definition nx_closeness_centrality :: "nx_graph \<Rightarrow> str \<Rightarrow> real" where
  "nx_closeness_centrality g n =
     (let sp = shortest_path_length g n;
          totsp = sum_list (map snd sp);
          len_G = length (nodes g)
      in if 0 < totsp \<and> 1 < len_G
         then ((real (length sp) - 1) / real totsp) * ((real (length sp) - 1) / (real len_G - 1))
         else 0)"

text \<open>
  Betweenness centrality of a node \<open>v\<close>: the sum, over the ordered pairs of other nodes
  \<open>s\<close>, \<open>t\<close>, of the fraction of the shortest paths from \<open>s\<close> to \<open>t\<close> that pass through \<open>v\<close>,
  divided by \<open>(n - 1) * (n - 2)\<close> in a graph of more than two nodes.  The shortest paths
  are the walks of the least number of edges.
\<close>

fun walks :: "nx_graph \<Rightarrow> str \<Rightarrow> str \<Rightarrow> nat \<Rightarrow> str list list" where
  "walks g s t 0 = (if s = t then [[s]] else [])"
| "walks g s t (Suc k) = concat (map (\<lambda>m. map (\<lambda>p. s # p) (walks g m t k)) (neighbors g s))"

fun first_walks :: "nx_graph \<Rightarrow> str \<Rightarrow> str \<Rightarrow> nat list \<Rightarrow> str list list" where
  "first_walks g s t [] = []"
| "first_walks g s t (k # ks) =
     (if walks g s t k \<noteq> [] then walks g s t k else first_walks g s t ks)"

definition shortest_paths :: "nx_graph \<Rightarrow> str \<Rightarrow> str \<Rightarrow> str list list" where
  "shortest_paths g s t = first_walks g s t [0 ..< length (nodes g)]"

definition pair_dependency :: "nx_graph \<Rightarrow> str \<Rightarrow> str \<Rightarrow> str \<Rightarrow> real" where
  "pair_dependency g s t v =
     (let paths = shortest_paths g s t
      in if paths = [] then 0
         else real (length (filter (\<lambda>p. v \<in> set p) paths)) / real (length paths))"

definition nx_betweenness_centrality :: "nx_graph \<Rightarrow> str \<Rightarrow> real" where
  "nx_betweenness_centrality g v =
     (let n = length (nodes g);
          total = sum_list (map (\<lambda>s. sum_list (map (\<lambda>t. pair_dependency g s t v)
                                              (filter (\<lambda>t. t \<noteq> v \<and> t \<noteq> s) (nodes g))))
                             (filter (\<lambda>s. s \<noteq> v) (nodes g)))
      in if n \<le> 2 then total else total / (real (n - 1) * real (n - 2)))"

text \<open>
  Eigenvector centrality is a power iteration: from the uniform vector, each step adds to
  every node's value the values of its neighbours and divides by the Euclidean norm (by 1
  when the norm is 0); the routine returns the vector of the first step at which the change
  is below the tolerance, and raises when no step up to \<open>max_iter\<close> is.  That test is
  decided by the floating-point arithmetic, so the step at which it first passes, if any,
  is the parameter \<open>converges_after\<close>; the vector returned is the iterate of that step.
  On a graph without nodes the routine raises.
\<close>

record nxlib =
  converges_after :: "nx_graph \<Rightarrow> nat option"

definition hypot :: "real list \<Rightarrow> real" where
  "hypot xs = sqrt (sum_list (map (\<lambda>x. x\<^sup>2) xs))"

declare hypot_def [code del]

definition power_step :: "nx_graph \<Rightarrow> (str \<Rightarrow> real) \<Rightarrow> str \<Rightarrow> real" where
  "power_step g xlast =
     (let x = (\<lambda>m. xlast m + sum_list (map xlast (neighbors g m)));
          norm = hypot (map x (nodes g))
      in (\<lambda>n. x n / (if norm = 0 then 1 else norm)))"

fun power_iterate :: "nx_graph \<Rightarrow> nat \<Rightarrow> str \<Rightarrow> real" where
  "power_iterate g 0 = (\<lambda>n. 1 / real (length (nodes g)))"
| "power_iterate g (Suc k) = power_step g (power_iterate g k)"

definition nx_eigenvector_centrality :: "nxlib \<Rightarrow> nx_graph \<Rightarrow> nat \<Rightarrow> py_error + (str \<Rightarrow> real)" where
  "nx_eigenvector_centrality N g max_iter =
     (if nodes g = [] then Inl NetworkXPointlessConcept
      else case converges_after N g of
             None \<Rightarrow> Inl PowerIterationFailedConvergence
           | Some k \<Rightarrow>
               if 1 \<le> k \<and> k \<le> max_iter then Inr (power_iterate g k)
               else Inl PowerIterationFailedConvergence)"

text \<open>\<open>DataFrame.round(4)\<close>: to four decimal places, halves to the even neighbour.\<close>

definition round_half_even :: "real \<Rightarrow> int" where
  "round_half_even x =
     (let f = \<lfloor>x\<rfloor>; d = x - of_int f
      in if d < 1 / 2 then f else if 1 / 2 < d then f + 1 else if even f then f else f + 1)"

definition round4 :: "real \<Rightarrow> real" where
  "round4 x = of_int (round_half_even (x * 10000)) / 10000"

record centrality_row =
  keyword :: str
  degree_centrality :: real
  betweenness_centrality :: real
  closeness_centrality :: real
  eigenvector_centrality :: real

text \<open>
  \<open>calculate_centrality_metrics\<close>.  \<open>not self.graph\<close> holds when there is no graph and when
  the graph has no node; the empty data frame is the empty list of rows.  Only the
  eigenvector routine is called under \<open>try\<close>.  The rows are sorted by descending degree
  centrality (the order among equal scores is pandas' and is not relied upon).
\<close>

definition calculate_centrality_metrics :: "nxlib \<Rightarrow> network_analyzer \<Rightarrow> centrality_row list" where
  "calculate_centrality_metrics N self =
     (case graph self of
        None \<Rightarrow> []
      | Some g \<Rightarrow>
          if length (nodes g) = 0 then []
          else
            let degree_cent = nx_degree_centrality g;
                betweenness_cent = map (\<lambda>n. (n, nx_betweenness_centrality g n)) (nodes g);
                closeness_cent = map (\<lambda>n. (n, nx_closeness_centrality g n)) (nodes g);
                eigenvector_cent =
                  (case nx_eigenvector_centrality N g 1000 of
                     Inl e \<Rightarrow> map (\<lambda>node. (node, 0)) (nodes g)
                   | Inr score \<Rightarrow> map (\<lambda>n. (n, score n)) (nodes g));
                centrality_df =
                  map (\<lambda>(((d, b), c), e).
                         \<lparr>keyword = fst d,
                          degree_centrality = round4 (snd d),
                          betweenness_centrality = round4 (snd b),
                          closeness_centrality = round4 (snd c),
                          eigenvector_centrality = round4 (snd e)\<rparr>)
                    (zip (zip (zip degree_cent betweenness_cent) closeness_cent) eigenvector_cent)
            in sort_key (\<lambda>row. - degree_centrality row) centrality_df)"

section \<open>TopicModeler\<close>

text \<open>
  The vectorizer and the topic model are scikit-learn objects.  A \<open>CountVectorizer\<close> has
  its vocabulary only after a successful \<open>fit_transform\<close>, and a
  \<open>LatentDirichletAllocation\<close> has its \<open>components_\<close> only after a successful fit; asking an
  unfitted object for them raises.  What \<open>fit_transform\<close> computes is a parameter: either
  an exception, or the vocabulary with the document-term matrix, respectively the topic
  components with the document-topic matrix.  The vectorizer's fixed settings
  (\<open>min_df = 2\<close>, \<open>max_df = 0.8\<close>, tokens of two or more word characters) are part of that
  parameter.
\<close>

datatype count_vectorizer =
  CountVectorizer (cv_max_features: int) (vocabulary: "str list option")

datatype lda =
  LatentDirichletAllocation (n_components: int) (components: "real list list option")

record sklib =
  cv_fit_transform :: "int \<Rightarrow> str list \<Rightarrow> py_error + (str list \<times> nat list list)"
  lda_fit_transform :: "int \<Rightarrow> nat list list \<Rightarrow> py_error + (real list list \<times> real list list)"

record topic_modeler =
  lda_model :: "lda option"
  vectorizer :: "count_vectorizer option"
  doc_topic_matrix :: "real list list option"

text \<open>
  \<open>fit_lda_model\<close>.  The assignments to \<open>self\<close> are kept in the order of the source: the
  new vectorizer before \<open>try\<close>, the new model before its fit, the document-topic matrix
  after it.
\<close>

definition fit_lda_model ::
  "textlib \<Rightarrow> sklib \<Rightarrow> topic_modeler \<Rightarrow> str list \<Rightarrow> int \<Rightarrow> int \<Rightarrow> lda option \<times> topic_modeler" where
  "fit_lda_model L S self texts n_topics max_features =
     (if texts = [] \<or> list_all (\<lambda>text. strip L text = []) texts then (None, self)
      else
        let self1 = self\<lparr>vectorizer := Some (CountVectorizer max_features None)\<rparr>
        in case cv_fit_transform S max_features texts of
             Inl e \<Rightarrow> (None, self1)
           | Inr (vocab, doc_term_matrix) \<Rightarrow>
               let self2 = self1\<lparr>vectorizer := Some (CountVectorizer max_features (Some vocab))\<rparr>
               in if sum_list (map sum_list doc_term_matrix) = 0 then (None, self2)
                  else
                    let self3 = self2\<lparr>lda_model := Some (LatentDirichletAllocation n_topics None)\<rparr>
                    in case lda_fit_transform S n_topics doc_term_matrix of
                         Inl e \<Rightarrow> (None, self3)
                       | Inr (comps, doc_topic) \<Rightarrow>
                           let model = LatentDirichletAllocation n_topics (Some comps)
                           in (Some model,
                               self3\<lparr>lda_model := Some model,
                                     doc_topic_matrix := Some doc_topic\<rparr>))"

text \<open>
  The topic queries.  \<open>argsort\<close> gives the indices by ascending weight (the order among
  equal weights is numpy's and is not relied upon); \<open>xs[-n:]\<close> is the slice of the last
  \<open>n\<close> items, which is all of \<open>xs\<close> for \<open>n = 0\<close>; indexing the feature names out of range
  raises.  A row is (topic, keyword, weight).
\<close>

definition argsort :: "real list \<Rightarrow> nat list" where
  "argsort xs = map snd (sort_key fst (zip xs [0 ..< length xs]))"

definition slice_last :: "int \<Rightarrow> 'a list \<Rightarrow> 'a list" where
  "slice_last n xs = (if 0 < n then drop (length xs - nat n) xs else drop (nat (- n)) xs)"

definition top_words_idx :: "real list \<Rightarrow> int \<Rightarrow> nat list" where
  "top_words_idx topic n = rev (slice_last n (argsort topic))"

definition feature_lookup :: "str list \<Rightarrow> nat list \<Rightarrow> py_error + str list" where
  "feature_lookup feature_names idx =
     (if list_all (\<lambda>i. i < length feature_names) idx then Inr (map (\<lambda>i. feature_names ! i) idx)
      else Inl IndexError)"

fun decimal :: "nat \<Rightarrow> str" where
  "decimal n = (if n < 10 then [48 + int n] else decimal (n div 10) @ [48 + int (n mod 10)])"

declare decimal.simps [simp del]

definition topic_label :: "nat \<Rightarrow> str" where
  "topic_label topic_idx = [53664, 54589, 32] @ decimal (topic_idx + 1)"

fun join :: "str \<Rightarrow> str list \<Rightarrow> str" where
  "join sep [] = []"
| "join sep [x] = x"
| "join sep (x # y # r) = x @ sep @ join sep (y # r)"

fun topics_data :: "str list \<Rightarrow> int \<Rightarrow> nat \<Rightarrow> real list list \<Rightarrow> py_error + (str \<times> str \<times> real) list" where
  "topics_data feature_names n_words topic_idx [] = Inr []"
| "topics_data feature_names n_words topic_idx (topic # rest) =
     (case feature_lookup feature_names (top_words_idx topic n_words) of
        Inl e \<Rightarrow> Inl e
      | Inr top_words \<Rightarrow>
          (case topics_data feature_names n_words (Suc topic_idx) rest of
             Inl e \<Rightarrow> Inl e
           | Inr rows \<Rightarrow>
               Inr (map (\<lambda>(word, i). (topic_label topic_idx, word, round4 (topic ! i)))
                      (zip top_words (top_words_idx topic n_words)) @ rows)))"

definition get_topics_dataframe ::
  "topic_modeler \<Rightarrow> int \<Rightarrow> py_error + (str \<times> str \<times> real) list" where
  "get_topics_dataframe self n_words =
     (case (lda_model self, vectorizer self) of
        (Some m, Some v) \<Rightarrow>
          (case vocabulary v of
             None \<Rightarrow> Inl NotFittedError
           | Some feature_names \<Rightarrow>
               (case components m of
                  None \<Rightarrow> Inl AttributeError
                | Some comps \<Rightarrow> topics_data feature_names n_words 0 comps))
      | _ \<Rightarrow> Inr [])"

fun topic_summary :: "str list \<Rightarrow> nat \<Rightarrow> real list list \<Rightarrow> py_error + (str \<times> str) list" where
  "topic_summary feature_names topic_idx [] = Inr []"
| "topic_summary feature_names topic_idx (topic # rest) =
     (case feature_lookup feature_names (top_words_idx topic 5) of
        Inl e \<Rightarrow> Inl e
      | Inr top_words \<Rightarrow>
          (case topic_summary feature_names (Suc topic_idx) rest of
             Inl e \<Rightarrow> Inl e
           | Inr summary \<Rightarrow> Inr ((topic_label topic_idx, join [44, 32] top_words) # summary)))"

definition get_topic_keywords_summary :: "topic_modeler \<Rightarrow> py_error + (str \<times> str) list" where
  "get_topic_keywords_summary self =
     (case (lda_model self, vectorizer self) of
        (Some m, Some v) \<Rightarrow>
          (case vocabulary v of
             None \<Rightarrow> Inl NotFittedError
           | Some feature_names \<Rightarrow>
               (case components m of
                  None \<Rightarrow> Inl AttributeError
                | Some comps \<Rightarrow> topic_summary feature_names 0 comps))
      | _ \<Rightarrow> Inr [])"

section \<open>The analysis of one request\<close>

text \<open>
  \<open>perform_realtime_analysis\<close> of the dashboard, on the \<open>Context\<close> column and the sidebar
  settings.  The session holds the network analyzer and the topic modeler; the
  preprocessor has no state.  The result is \<open>None\<close> for the tuple of four \<open>None\<close>s.
\<close>

record session_state =
  network_analyzer :: network_analyzer
  topic_modeler :: topic_modeler

definition perform_realtime_analysis ::
  "textlib \<Rightarrow> sklib \<Rightarrow> session_state \<Rightarrow> str option list \<Rightarrow> str list option \<Rightarrow> str list option
   \<Rightarrow> int \<Rightarrow> int \<Rightarrow> (nx_graph \<times> str list \<times> nat \<times> lda option) option \<times> session_state" where
  "perform_realtime_analysis L S ss data exclude_words include_words n_topics min_frequency =
     (let texts = filter (\<lambda>text. strip L text \<noteq> []) (map (clean_text L) data)
      in if texts = [] then (None, ss)
         else
           let cooccurrence = get_cooccurrence_matrix L texts exclude_words include_words 5;
               (network_graph, na) =
                 create_network (network_analyzer ss) cooccurrence min_frequency;
               filtered_texts =
                 map (join [32])
                   (filter (\<lambda>keywords. keywords \<noteq> [])
                      (map (\<lambda>text. extract_keywords L text exclude_words include_words) texts));
               (topic_model, tm) =
                 (if 5 \<le> length filtered_texts
                  then fit_lda_model L S (topic_modeler ss) filtered_texts n_topics 100
                  else (None, topic_modeler ss))
           in (Some (network_graph, filtered_texts, length texts, topic_model),
               \<lparr>network_analyzer = na, topic_modeler = tm\<rparr>))"

section \<open>A sample of the scikit-learn behaviour\<close>

text \<open>
  For the concrete instances below.  On the five documents of \<open>sample_docs\<close> and on the
  four documents of \<open>four_docs\<close> the vectorizer returns what \<open>CountVectorizer\<close> returns for
  them: in \<open>sample_docs\<close> every word occurs in two or three of the five documents, so none
  is pruned; in \<open>four_docs\<close> the word view occurs in one document only and is pruned by
  \<open>min_df = 2\<close>; the vocabulary is sorted.  On any other input of the sample it raises
  \<open>ValueError\<close>, as the vectorizer does on a single document, where \<open>max_df\<close> falls below
  \<open>min_df\<close>.  The topic fit raises \<open>ValueError\<close> for fewer than one topic, as scikit-learn's
  parameter validation does, and otherwise returns uniform matrices of the right shape
  (the fitted numbers play no role below).
\<close>

definition sample_docs :: "str list" where
  "sample_docs =
     [str_of ''clean room'', str_of ''clean bed'', str_of ''room bed'', str_of ''clean view'',
      str_of ''bed view'']"

definition four_docs :: "str list" where
  "four_docs =
     [str_of ''clean room'', str_of ''clean bed'', str_of ''room bed'', str_of ''clean view'']"

definition sample_sklib :: sklib where
  "sample_sklib =
     \<lparr>cv_fit_transform =
        (\<lambda>max_features texts.
           if texts = sample_docs
           then Inr ([str_of ''bed'', str_of ''clean'', str_of ''room'', str_of ''view''],
                     [[0, 1, 1, 0], [1, 1, 0, 0], [1, 0, 1, 0], [0, 1, 0, 1], [1, 0, 0, 1]])
           else if texts = four_docs
           then Inr ([str_of ''bed'', str_of ''clean'', str_of ''room''],
                     [[0, 1, 1], [1, 1, 0], [1, 0, 1], [0, 1, 0]])
           else Inl ValueError),
      lda_fit_transform =
        (\<lambda>n_topics m.
           if n_topics < 1 then Inl ValueError
           else Inr (replicate (nat n_topics)
                       (replicate (case m of [] \<Rightarrow> 0 | row # rows \<Rightarrow> length row) 1),
                     replicate (length m) (replicate (nat n_topics) (1 / of_int n_topics))))\<rparr>"

definition new_topic_modeler :: topic_modeler where
  "new_topic_modeler = \<lparr>lda_model = None, vectorizer = None, doc_topic_matrix = None\<rparr>"

definition new_session :: session_state where
  "new_session = \<lparr>network_analyzer = \<lparr>graph = None\<rparr>, topic_modeler = new_topic_modeler\<rparr>"

text \<open>
  The topic modeler after a successful fit on \<open>sample_docs\<close>, and a vectorizer whose matrix is
  all zero: the case that the source guards with \<open>doc_term_matrix.sum() == 0\<close>.
\<close>

definition fitted_modeler :: topic_modeler where
  "fitted_modeler =
     snd (fit_lda_model ascii_textlib sample_sklib new_topic_modeler sample_docs 2 100)"

definition zero_matrix_sklib :: sklib where
  "zero_matrix_sklib =
     \<lparr>cv_fit_transform = (\<lambda>max_features texts. Inr ([str_of ''clean''], [[0]])),
      lda_fit_transform = (\<lambda>n_topics m. Inl ValueError)\<rparr>"

section \<open>The worked example of the co-occurrence network\<close>

text \<open>
  C1 (as stated): on the five example texts with window 5, the pair (clean, service) is
  counted 3 times and the pair (bed, view) once, and with threshold 2 the first pair is an
  edge and the second is not.  This fails: the loop visits every pair of positions from
  both of its ends, so each co-occurrence is counted twice.
\<close>

theorem cooccurrence_example_counterexample:
  "\<not> (map_of (get_cooccurrence_matrix ascii_textlib example_texts None None 5)
          (str_of ''clean'', str_of ''service'') = Some 3
      \<and> map_of (get_cooccurrence_matrix ascii_textlib example_texts None None 5)
          (str_of ''bed'', str_of ''view'') = Some 1
      \<and> has_edge (fst (create_network \<lparr>graph = None\<rparr>
            (get_cooccurrence_matrix ascii_textlib example_texts None None 5) 2))
          (str_of ''clean'') (str_of ''service'')
      \<and> \<not> has_edge (fst (create_network \<lparr>graph = None\<rparr>
            (get_cooccurrence_matrix ascii_textlib example_texts None None 5) 2))
          (str_of ''bed'') (str_of ''view''))"
  by code_simp

text \<open>
  C1 (amended): on the five example texts with window 5, \<open>get_cooccurrence_matrix\<close>
  accumulates count 6 for the pair (clean, service) and count 2 for the pair (bed, view);
  \<open>create_network\<close> with threshold 2 has an edge for both pairs, and with threshold 3 it
  has the edge (clean, service) and no edge (bed, view).
\<close>

theorem cooccurrence_example:
  "map_of (get_cooccurrence_matrix ascii_textlib example_texts None None 5)
     (str_of ''clean'', str_of ''service'') = Some 6
   \<and> map_of (get_cooccurrence_matrix ascii_textlib example_texts None None 5)
     (str_of ''bed'', str_of ''view'') = Some 2
   \<and> has_edge (fst (create_network \<lparr>graph = None\<rparr>
         (get_cooccurrence_matrix ascii_textlib example_texts None None 5) 2))
       (str_of ''clean'') (str_of ''service'')
   \<and> has_edge (fst (create_network \<lparr>graph = None\<rparr>
         (get_cooccurrence_matrix ascii_textlib example_texts None None 5) 2))
       (str_of ''bed'') (str_of ''view'')
   \<and> has_edge (fst (create_network \<lparr>graph = None\<rparr>
         (get_cooccurrence_matrix ascii_textlib example_texts None None 5) 3))
       (str_of ''clean'') (str_of ''service'')
   \<and> \<not> has_edge (fst (create_network \<lparr>graph = None\<rparr>
         (get_cooccurrence_matrix ascii_textlib example_texts None None 5) 3))
       (str_of ''bed'') (str_of ''view'')"
  by code_simp

section \<open>Keyword extraction\<close>

text \<open>
  C5: for every non-empty inclusion list \<open>I\<close> and every text, if \<open>extract_keywords\<close>
  returns a non-empty keyword list then the text contains a member of \<open>I\<close> as a
  case-insensitive substring (the lower-cased member occurs in the lower-cased text); and
  when no member occurs so, \<open>extract_keywords\<close> returns the empty list.
\<close>

theorem inclusion_gate:
  assumes "I \<noteq> []"
  shows "(extract_keywords L text E (Some I) \<noteq> [] \<longrightarrow>
            (\<exists>inc \<in> set I. sublist (str_lower L inc) (str_lower L text)))
       \<and> (\<not> (\<exists>inc \<in> set I. sublist (str_lower L inc) (str_lower L text)) \<longrightarrow>
            extract_keywords L text E (Some I) = [])"
  using assms by (auto simp: extract_keywords_def truthy_def Let_def)

theorem inclusion_gate_witness:
  "[str_of ''service''] \<noteq> []
   \<and> extract_keywords ascii_textlib (str_of ''Great SERVICE here'') None (Some [str_of ''service''])
       = [str_of ''Great'', str_of ''SERVICE'', str_of ''here'']
   \<and> (\<exists>inc \<in> set [str_of ''service''].
         sublist (str_lower ascii_textlib inc) (str_lower ascii_textlib (str_of ''Great SERVICE here'')))
   \<and> \<not> (\<exists>inc \<in> set [str_of ''service''].
         sublist (str_lower ascii_textlib inc) (str_lower ascii_textlib (str_of ''room small clean'')))
   \<and> extract_keywords ascii_textlib (str_of ''room small clean'') None (Some [str_of ''service'']) = []"
proof -
  have ne: "[str_of ''service''] \<noteq> []" by simp
  have k: "extract_keywords ascii_textlib (str_of ''Great SERVICE here'') None (Some [str_of ''service''])
       = [str_of ''Great'', str_of ''SERVICE'', str_of ''here'']"
    by code_simp
  have n: "\<not> (\<exists>inc \<in> set [str_of ''service''].
         sublist (str_lower ascii_textlib inc) (str_lower ascii_textlib (str_of ''room small clean'')))"
    by code_simp
  from inclusion_gate [OF ne, of ascii_textlib "str_of ''Great SERVICE here''" None] k
  have a: "\<exists>inc \<in> set [str_of ''service''].
         sublist (str_lower ascii_textlib inc) (str_lower ascii_textlib (str_of ''Great SERVICE here''))"
    by simp
  from inclusion_gate [OF ne, of ascii_textlib "str_of ''room small clean''" None] n
  have b: "extract_keywords ascii_textlib (str_of ''room small clean'') None (Some [str_of ''service'']) = []"
    by blast
  from ne k a n b show ?thesis by blast
qed

text \<open>
  C6: for every text and every exclusion list \<open>E\<close>, no word of \<open>E\<close> is in the keyword list
  that \<open>extract_keywords\<close> returns; and for a (non-empty) text that the tokenizer splits
  into room, clean, service, the exclusion list [room] yields [clean, service].
\<close>

theorem exclusion_filter:
  "(w \<in> set E \<longrightarrow> w \<notin> set (extract_keywords L text (Some E) I))
   \<and> (text \<noteq> [] \<and> okt_morphs L text = [str_of ''room'', str_of ''clean'', str_of ''service'']
        \<longrightarrow> extract_keywords L text (Some [str_of ''room'']) None
              = [str_of ''clean'', str_of ''service''])"
  by (auto simp: extract_keywords_def truthy_def Let_def builtin_stopwords_def str_of_def)

theorem exclusion_filter_witness:
  "str_of ''room'' \<in> set [str_of ''room'']
   \<and> str_of ''room'' \<notin> set (extract_keywords ascii_textlib (str_of ''room clean service'')
         (Some [str_of ''room'']) None)
   \<and> str_of ''room clean service'' \<noteq> []
   \<and> okt_morphs ascii_textlib (str_of ''room clean service'')
       = [str_of ''room'', str_of ''clean'', str_of ''service'']
   \<and> extract_keywords ascii_textlib (str_of ''room clean service'') (Some [str_of ''room'']) None
       = [str_of ''clean'', str_of ''service'']"
proof -
  have m: "str_of ''room'' \<in> set [str_of ''room'']" by simp
  have ne: "str_of ''room clean service'' \<noteq> []" by (simp add: str_of_def)
  have tok: "okt_morphs ascii_textlib (str_of ''room clean service'')
       = [str_of ''room'', str_of ''clean'', str_of ''service'']"
    by code_simp
  note t = exclusion_filter [of "str_of ''room''" "[str_of ''room'']" ascii_textlib
      "str_of ''room clean service''" None]
  from t m ne tok show ?thesis by blast
qed

section \<open>Cleaning is idempotent\<close>

text \<open>
  The shape of a cleaned string: every white-space character in it is a single space
  with no white space after it.
\<close>

fun is_collapsed :: "textlib \<Rightarrow> str \<Rightarrow> bool" where
  "is_collapsed L [] = True"
| "is_collapsed L [c] = (re_space L c \<longrightarrow> c = 32)"
| "is_collapsed L (c # d # r) =
     ((re_space L c \<longrightarrow> c = 32 \<and> \<not> re_space L d) \<and> is_collapsed L (d # r))"

lemma re_space_32: "re_space L 32"
  by (simp add: re_space_def)

lemma re_digit_32: "\<not> re_digit L 32"
  by (simp add: re_digit_def)

lemma is_collapsed_Cons:
  "is_collapsed L (c # r) \<longleftrightarrow>
     (re_space L c \<longrightarrow> c = 32 \<and> (r = [] \<or> \<not> re_space L (hd r))) \<and> is_collapsed L r"
  by (cases r) auto

lemma collapse_spaces_head:
  "s = [] \<or> \<not> re_space L (hd s) \<Longrightarrow>
   collapse_spaces L s = [] \<or> \<not> re_space L (hd (collapse_spaces L s))"
  by (cases s) auto

lemma collapse_spaces_is_collapsed: "is_collapsed L (collapse_spaces L s)"
proof (induction L s rule: collapse_spaces.induct)
  case (1 L)
  show ?case by simp
next
  case (2 L c cs)
  show ?case
  proof (cases "re_space L c")
    case True
    let ?r = "dropWhile (re_space L) cs"
    have "?r = [] \<or> \<not> re_space L (hd ?r)"
      using hd_dropWhile [of "re_space L" cs] by blast
    then have "collapse_spaces L ?r = [] \<or> \<not> re_space L (hd (collapse_spaces L ?r))"
      by (rule collapse_spaces_head)
    with True 2 show ?thesis by (simp add: is_collapsed_Cons)
  next
    case False
    with 2 show ?thesis by (simp add: is_collapsed_Cons)
  qed
qed

lemma collapse_spaces_fixed: "is_collapsed L s \<Longrightarrow> collapse_spaces L s = s"
proof (induction L s rule: is_collapsed.induct)
  case (1 L)
  show ?case by simp
next
  case (2 L c)
  then show ?case by simp
next
  case (3 L c d r)
  then show ?case by auto
qed

lemma is_collapsed_append_left: "is_collapsed L (xs @ ys) \<Longrightarrow> is_collapsed L xs"
proof (induction xs)
  case Nil
  show ?case by simp
next
  case (Cons c xs)
  then show ?case
    by (cases xs) (auto simp: is_collapsed_Cons)
qed

lemma is_collapsed_append_right: "is_collapsed L (xs @ ys) \<Longrightarrow> is_collapsed L ys"
  by (induction xs) (auto simp: is_collapsed_Cons)

lemma rstrip_prefix: "s = rev (dropWhile P (rev s)) @ rev (takeWhile P (rev s))"
  by (metis rev_append rev_rev_ident takeWhile_dropWhile_id)

lemma strip_decomp:
  "\<exists>pre post. s = pre @ strip L s @ post"
proof -
  let ?v = "dropWhile (re_space L) s"
  have "s = takeWhile (re_space L) s @ ?v" by simp
  moreover have "?v = strip L s @ rev (takeWhile (re_space L) (rev ?v))"
    unfolding strip_def by (rule rstrip_prefix)
  ultimately have "s = takeWhile (re_space L) s @ strip L s @ rev (takeWhile (re_space L) (rev ?v))"
    by simp
  then show ?thesis by blast
qed

lemma is_collapsed_strip: "is_collapsed L s \<Longrightarrow> is_collapsed L (strip L s)"
proof -
  assume c: "is_collapsed L s"
  obtain pre post where "s = pre @ strip L s @ post" using strip_decomp by blast
  with c have "is_collapsed L (pre @ (strip L s @ post))" by simp
  then have "is_collapsed L (strip L s @ post)" by (rule is_collapsed_append_right)
  then show ?thesis by (rule is_collapsed_append_left)
qed

lemma set_strip: "set (strip L s) \<subseteq> set s"
proof -
  obtain pre post where "s = pre @ strip L s @ post" using strip_decomp by blast
  then have "set s = set pre \<union> set (strip L s) \<union> set post" by (metis set_append Un_assoc)
  then show ?thesis by blast
qed

lemma set_collapse_spaces: "set (collapse_spaces L s) \<subseteq> insert 32 (set s)"
proof (induction L s rule: collapse_spaces.induct)
  case (1 L)
  show ?case by simp
next
  case (2 L c cs)
  show ?case
  proof (cases "re_space L c")
    case True
    have "set (dropWhile (re_space L) cs) \<subseteq> set cs" by (rule set_dropWhileD [THEN subsetI]) 
    with True 2 show ?thesis by auto
  next
    case False
    with 2 show ?thesis by auto
  qed
qed

lemma strip_idem: "strip L (strip L s) = strip L s"
proof -
  let ?P = "re_space L"
  let ?v = "dropWhile ?P s"
  let ?u = "rev (dropWhile ?P (rev ?v))"
  have u: "strip L s = ?u" by (simp add: strip_def)
  have front: "dropWhile ?P ?u = ?u"
  proof (cases "?u = []")
    case True
    then show ?thesis by (simp only: dropWhile.simps)
  next
    case False
    have v: "?v = ?u @ rev (takeWhile ?P (rev ?v))" by (rule rstrip_prefix)
    from False v have "?v \<noteq> []" by (metis append_is_Nil_conv)
    then have "\<not> ?P (hd ?v)" by (rule hd_dropWhile)
    moreover from False v have "hd ?v = hd ?u" by (metis hd_append2)
    ultimately have "\<not> ?P (hd ?u)" by simp
    with False show ?thesis by (cases ?u) auto
  qed
  have "strip L ?u = rev (dropWhile ?P (rev (dropWhile ?P ?u)))" by (simp add: strip_def)
  also have "\<dots> = rev (dropWhile ?P (rev ?u))" by (simp only: front)
  also have "\<dots> = ?u" by simp
  finally show ?thesis by (simp only: u)
qed

text \<open>
  C8: for every input string \<open>s\<close>, cleaning is idempotent:
  \<open>clean_text (clean_text s) = clean_text s\<close>, whatever the Unicode tables beyond ASCII.
\<close>

theorem clean_text_idempotent:
  "clean_text L (Some (clean_text L (Some s))) = clean_text L (Some s)"
proof -
  let ?f = "\<lambda>c. if \<not> re_word L c \<and> \<not> re_space L c then 32 else c"
  let ?t2 = "filter (\<lambda>c. \<not> re_digit L c) (map ?f s)"
  let ?c = "collapse_spaces L ?t2"
  let ?t = "strip L ?c"
  have t: "clean_text L (Some s) = ?t" by (simp add: clean_text_def)
  have sub: "set ?t \<subseteq> insert 32 (set ?t2)"
    using set_strip [of L ?c] set_collapse_spaces [of L ?t2] by blast
  have nodigit: "\<not> re_digit L c" if "c \<in> set ?t" for c
    using that sub re_digit_32 [of L] by auto
  have keep: "?f c = c" if "c \<in> set ?t" for c
  proof -
    from that sub have "c = 32 \<or> c \<in> set ?t2" by auto
    then show ?thesis
    proof
      assume "c = 32" then show ?thesis by simp
    next
      assume "c \<in> set ?t2"
      then have "c \<in> ?f ` set s" by auto
      then obtain b where "c = ?f b" by blast
      then show ?thesis using re_space_32 [of L] by (cases "\<not> re_word L b \<and> \<not> re_space L b") auto
    qed
  qed
  have m: "map ?f ?t = ?t" by (rule map_idI) (rule keep)
  have f: "filter (\<lambda>c. \<not> re_digit L c) ?t = ?t"
  proof (rule filter_True, rule ballI)
    fix c assume "c \<in> set ?t"
    then show "\<not> re_digit L c" by (rule nodigit)
  qed
  have "is_collapsed L ?t"
    by (rule is_collapsed_strip) (rule collapse_spaces_is_collapsed)
  then have c: "collapse_spaces L ?t = ?t" by (rule collapse_spaces_fixed)
  have "clean_text L (Some ?t) = strip L (collapse_spaces L (filter (\<lambda>c. \<not> re_digit L c) (map ?f ?t)))"
    by (simp add: clean_text_def)
  also have "\<dots> = strip L (collapse_spaces L ?t)" by (simp only: m f)
  also have "\<dots> = strip L ?t" by (simp only: c)
  also have "\<dots> = ?t" by (rule strip_idem)
  finally show ?thesis by (simp only: t)
qed

theorem clean_text_idempotent_witness:
  "clean_text ascii_textlib (Some (str_of ''Room 101:  very   clean!! '')) = str_of ''Room very clean''
   \<and> clean_text ascii_textlib
        (Some (clean_text ascii_textlib (Some (str_of ''Room 101:  very   clean!! ''))))
       = str_of ''Room very clean''"
proof -
  have a: "clean_text ascii_textlib (Some (str_of ''Room 101:  very   clean!! ''))
           = str_of ''Room very clean''"
    by code_simp
  from clean_text_idempotent [of ascii_textlib "str_of ''Room 101:  very   clean!! ''"] a
  show ?thesis by simp
qed

section \<open>Graphs built by \<open>create_network\<close>\<close>

text \<open>
  An undirected edge is the set of its end points.  The loop of \<open>create_network\<close> is
  \<open>add_edges\<close>; the pairs that reach the threshold are \<open>frequent\<close>.  The graph keeps each
  node and each undirected edge once, so its node and edge counts are cardinalities.
\<close>

definition edge_key :: "str \<times> str \<Rightarrow> str set" where
  "edge_key e = {fst e, snd e}"

definition edge_keys :: "((str \<times> str) \<times> int) list \<Rightarrow> str set list" where
  "edge_keys es = map (\<lambda>x. edge_key (fst x)) es"

definition add_edges :: "int \<Rightarrow> cooccurrence \<Rightarrow> nx_graph \<Rightarrow> nx_graph" where
  "add_edges min_frequency d g =
     fold (\<lambda>((word1, word2), freq) g.
             if freq \<ge> min_frequency then add_edge word1 word2 freq g else g) d g"

definition frequent :: "int \<Rightarrow> cooccurrence \<Rightarrow> (str \<times> str) set" where
  "frequent t d = fst ` {x \<in> set d. t \<le> snd x}"

lemma create_network_add_edges:
  "fst (create_network self d t) = add_edges t d empty_graph"
  by (simp add: create_network_def add_edges_def Let_def)

lemma same_edge_key: "same_edge e f \<longleftrightarrow> edge_key e = edge_key f"
  by (cases e, cases f) (auto simp: same_edge_def edge_key_def doubleton_eq_iff)

lemma edge_keys_Nil: "edge_keys [] = []"
  by (simp add: edge_keys_def)

lemma edge_keys_Cons: "edge_keys (x # es) = edge_key (fst x) # edge_keys es"
  by (simp add: edge_keys_def)

lemma length_edge_keys: "length (edge_keys es) = length es"
  by (simp add: edge_keys_def)

lemma set_edge_keys:
  "set (edge_keys (set_edge e w es)) = insert (edge_key e) (set (edge_keys es))"
proof (induction es)
  case Nil
  show ?case by (simp add: edge_keys_Nil edge_keys_Cons)
next
  case (Cons x es)
  obtain f w' where x: "x = (f, w')" by (cases x)
  show ?case
  proof (cases "same_edge e f")
    case True
    then have "edge_key e = edge_key f" by (simp add: same_edge_key)
    with True x show ?thesis by (simp add: edge_keys_Cons)
  next
    case False
    with x Cons.IH show ?thesis by (simp add: edge_keys_Cons insert_commute)
  qed
qed

lemma set_edge_distinct:
  "distinct (edge_keys es) \<Longrightarrow> distinct (edge_keys (set_edge e w es))"
proof (induction es)
  case Nil
  show ?case by (simp add: edge_keys_Nil edge_keys_Cons)
next
  case (Cons x es)
  obtain f w' where x: "x = (f, w')" by (cases x)
  show ?case
  proof (cases "same_edge e f")
    case True
    with Cons.prems x show ?thesis by (simp add: edge_keys_Cons)
  next
    case False
    from Cons have d: "distinct (edge_keys (set_edge e w es))"
      by (simp add: edge_keys_Cons)
    from Cons.prems x have "edge_key f \<notin> set (edge_keys es)"
      by (simp add: edge_keys_Cons)
    with False have "edge_key f \<notin> set (edge_keys (set_edge e w es))"
      by (simp add: set_edge_keys same_edge_key)
    with d False x show ?thesis by (simp add: edge_keys_Cons)
  qed
qed

lemma add_node_set: "set (add_node n ns) = insert n (set ns)"
  by (auto simp: add_node_def)

lemma add_node_distinct: "distinct ns \<Longrightarrow> distinct (add_node n ns)"
  by (simp add: add_node_def)

definition graph_ok :: "nx_graph \<Rightarrow> bool" where
  "graph_ok g = (distinct (nodes g) \<and> distinct (edge_keys (edges g)))"

lemma add_edge_ok: "graph_ok g \<Longrightarrow> graph_ok (add_edge u v w g)"
  by (simp add: graph_ok_def add_edge_def add_node_distinct set_edge_distinct)

lemma add_edge_nodes: "set (nodes (add_edge u v w g)) = {u, v} \<union> set (nodes g)"
  by (auto simp: add_edge_def add_node_set)

lemma add_edge_keys:
  "set (edge_keys (edges (add_edge u v w g))) = insert {u, v} (set (edge_keys (edges g)))"
  by (simp add: add_edge_def set_edge_keys edge_key_def)

lemma add_edges_ok: "graph_ok g \<Longrightarrow> graph_ok (add_edges t d g)"
  unfolding add_edges_def
  by (induction d arbitrary: g) (auto simp: add_edge_ok)

lemma add_edges_nodes:
  "set (nodes (add_edges t d g)) = set (nodes g) \<union> \<Union> (edge_key ` frequent t d)"
  unfolding add_edges_def
proof (induction d arbitrary: g)
  case Nil
  show ?case by (simp add: frequent_def)
next
  case (Cons x d)
  obtain u v f where x: "x = ((u, v), f)" by (cases x) auto
  have fr: "frequent t (x # d) = (if t \<le> f then insert (u, v) (frequent t d) else frequent t d)"
    by (force simp: frequent_def x)
  show ?case
    by (simp only: fold.simps o_apply Cons.IH fr)
       (auto simp: x add_edge_nodes edge_key_def)
qed

lemma add_edges_keys:
  "set (edge_keys (edges (add_edges t d g))) = set (edge_keys (edges g)) \<union> edge_key ` frequent t d"
  unfolding add_edges_def
proof (induction d arbitrary: g)
  case Nil
  show ?case by (simp add: frequent_def)
next
  case (Cons x d)
  obtain u v f where x: "x = ((u, v), f)" by (cases x) auto
  have fr: "frequent t (x # d) = (if t \<le> f then insert (u, v) (frequent t d) else frequent t d)"
    by (force simp: frequent_def x)
  show ?case
    by (simp only: fold.simps o_apply Cons.IH fr)
       (auto simp: x add_edge_keys edge_key_def)
qed

lemma empty_graph_ok: "graph_ok empty_graph"
  by (simp add: graph_ok_def empty_graph_def edge_keys_Nil)

lemma number_of_nodes_card:
  "number_of_nodes (add_edges t d empty_graph) = card (\<Union> (edge_key ` frequent t d))"
proof -
  have "graph_ok (add_edges t d empty_graph)" by (rule add_edges_ok) (rule empty_graph_ok)
  then have "distinct (nodes (add_edges t d empty_graph))" by (simp add: graph_ok_def)
  then have "number_of_nodes (add_edges t d empty_graph) = card (set (nodes (add_edges t d empty_graph)))"
    by (simp add: number_of_nodes_def distinct_card)
  then show ?thesis by (simp add: add_edges_nodes empty_graph_def)
qed

lemma number_of_edges_card:
  "number_of_edges (add_edges t d empty_graph) = card (edge_key ` frequent t d)"
proof -
  let ?g = "add_edges t d empty_graph"
  have "graph_ok ?g" by (rule add_edges_ok) (rule empty_graph_ok)
  then have "distinct (edge_keys (edges ?g))" by (simp add: graph_ok_def)
  then have "card (set (edge_keys (edges ?g))) = length (edge_keys (edges ?g))"
    by (rule distinct_card)
  then have "number_of_edges ?g = card (set (edge_keys (edges ?g)))"
    by (simp add: number_of_edges_def length_edge_keys)
  then show ?thesis by (simp add: add_edges_keys empty_graph_def edge_keys_Nil)
qed

lemma frequent_mono: "t1 \<le> t2 \<Longrightarrow> frequent t2 d \<subseteq> frequent t1 d"
  by (auto simp: frequent_def)

lemma finite_frequent: "finite (frequent t d)"
  by (simp add: frequent_def)

text \<open>
  C7: for every co-occurrence map and thresholds \<open>t1 \<le> t2\<close>, the graph built with \<open>t2\<close>
  has no more nodes and no more edges than the graph built with \<open>t1\<close>.
\<close>

theorem create_network_monotone:
  assumes "t1 \<le> t2"
  shows "number_of_nodes (fst (create_network self2 d t2))
           \<le> number_of_nodes (fst (create_network self1 d t1))
       \<and> number_of_edges (fst (create_network self2 d t2))
           \<le> number_of_edges (fst (create_network self1 d t1))"
proof -
  from assms have sub: "frequent t2 d \<subseteq> frequent t1 d" by (rule frequent_mono)
  have fin: "finite (\<Union> (edge_key ` frequent t1 d))"
    by (auto simp: finite_frequent edge_key_def)
  from sub have "\<Union> (edge_key ` frequent t2 d) \<subseteq> \<Union> (edge_key ` frequent t1 d)" by blast
  with fin have n: "card (\<Union> (edge_key ` frequent t2 d)) \<le> card (\<Union> (edge_key ` frequent t1 d))"
    by (rule card_mono)
  have "finite (edge_key ` frequent t1 d)" by (simp add: finite_frequent)
  moreover from sub have "edge_key ` frequent t2 d \<subseteq> edge_key ` frequent t1 d" by blast
  ultimately have e: "card (edge_key ` frequent t2 d) \<le> card (edge_key ` frequent t1 d)"
    by (rule card_mono)
  from n e show ?thesis
    by (simp only: create_network_add_edges number_of_nodes_card number_of_edges_card)
qed

theorem create_network_monotone_witness:
  "(2::int) \<le> 3
   \<and> number_of_nodes (fst (create_network \<lparr>graph = None\<rparr>
         [((str_of ''clean'', str_of ''service''), 6), ((str_of ''bed'', str_of ''view''), 2)] 3)) = 2
   \<and> number_of_nodes (fst (create_network \<lparr>graph = None\<rparr>
         [((str_of ''clean'', str_of ''service''), 6), ((str_of ''bed'', str_of ''view''), 2)] 2)) = 4
   \<and> number_of_edges (fst (create_network \<lparr>graph = None\<rparr>
         [((str_of ''clean'', str_of ''service''), 6), ((str_of ''bed'', str_of ''view''), 2)] 3))
     \<le> number_of_edges (fst (create_network \<lparr>graph = None\<rparr>
         [((str_of ''clean'', str_of ''service''), 6), ((str_of ''bed'', str_of ''view''), 2)] 2))"
proof -
  have le: "(2::int) \<le> 3" by simp
  have a: "number_of_nodes (fst (create_network \<lparr>graph = None\<rparr>
         [((str_of ''clean'', str_of ''service''), 6), ((str_of ''bed'', str_of ''view''), 2)] 3)) = 2"
    by code_simp
  have b: "number_of_nodes (fst (create_network \<lparr>graph = None\<rparr>
         [((str_of ''clean'', str_of ''service''), 6), ((str_of ''bed'', str_of ''view''), 2)] 2)) = 4"
    by code_simp
  from create_network_monotone [OF le, of "\<lparr>graph = None\<rparr>"
      "[((str_of ''clean'', str_of ''service''), 6), ((str_of ''bed'', str_of ''view''), 2)]"
      "\<lparr>graph = None\<rparr>"] le a b
  show ?thesis by blast
qed

section \<open>Keys and counts of the co-occurrence dictionary\<close>

text \<open>
  Counting never removes a key and never lowers a count: every loop of
  \<open>get_cooccurrence_matrix\<close> is a fold of steps that only add keys, and all counts stay
  positive.
\<close>

lemma fold_grows:
  assumes "\<And>x d. K d \<subseteq> K (f x d)"
  shows "K d \<subseteq> K (fold f xs d)"
proof (induction xs arbitrary: d)
  case Nil
  show ?case by simp
next
  case (Cons x xs)
  have "K d \<subseteq> K (f x d)" by (rule assms)
  also have "\<dots> \<subseteq> K (fold f xs (f x d))" by (rule Cons.IH)
  finally show ?case by simp
qed

lemma fold_reaches:
  assumes grow: "\<And>x d. K d \<subseteq> K (f x d)"
    and mem: "x \<in> set xs"
    and hit: "\<And>d. k \<in> K (f x d)"
  shows "k \<in> K (fold f xs d)"
  using mem
proof (induction xs arbitrary: d)
  case Nil
  then show ?case by simp
next
  case (Cons y xs)
  show ?case
  proof (cases "x = y")
    case True
    have "k \<in> K (f y d)" unfolding True [symmetric] by (rule hit)
    moreover have "K (f y d) \<subseteq> K (fold f xs (f y d))" using grow by (rule fold_grows)
    ultimately show ?thesis by auto
  next
    case False
    with Cons.prems have "x \<in> set xs" by simp
    then have "k \<in> K (fold f xs (f y d))" by (rule Cons.IH)
    then show ?thesis by simp
  qed
qed

lemma fold_invariant:
  assumes "\<And>x d. P d \<Longrightarrow> P (f x d)" and "P d"
  shows "P (fold f xs d)"
  using assms(2) by (induction xs arbitrary: d) (auto intro: assms(1))

definition keys :: "('k \<times> 'v) list \<Rightarrow> 'k set" where
  "keys d = fst ` set d"

definition counts_positive :: "cooccurrence \<Rightarrow> bool" where
  "counts_positive d = (\<forall>x \<in> set d. 0 < snd x)"

lemma keys_dict_set: "keys (dict_set k v d) = insert k (keys d)"
  by (induction k v d rule: dict_set.induct) (auto simp: keys_def)

lemma set_dict_set: "set (dict_set k v d) \<subseteq> insert (k, v) (set d)"
  by (induction k v d rule: dict_set.induct) auto

lemma dict_get_nonneg: "counts_positive d \<Longrightarrow> 0 \<le> dict_get d p 0"
proof (cases "map_of d p")
  case None
  then show ?thesis by (simp add: dict_get_def)
next
  case (Some c)
  assume pos: "counts_positive d"
  from Some have "(p, c) \<in> set d" by (rule map_of_SomeD)
  with pos have "0 < c" by (auto simp: counts_positive_def)
  with Some show ?thesis by (simp add: dict_get_def)
qed

lemma count_pair_positive: "counts_positive d \<Longrightarrow> counts_positive (count_pair p d)"
proof -
  assume pos: "counts_positive d"
  then have "0 < dict_get d p 0 + 1" using dict_get_nonneg [of d p] by simp
  with pos set_dict_set [of p "dict_get d p 0 + 1" d] show ?thesis
    by (auto simp: counts_positive_def count_pair_def)
qed

lemma count_pair_keys: "keys (count_pair p d) = insert p (keys d)"
  by (simp add: count_pair_def keys_dict_set)

lemma count_at_positive: "counts_positive d \<Longrightarrow> counts_positive (count_at kws w i d)"
  unfolding count_at_def
  by (rule fold_invariant) (auto simp: count_pair_positive)

lemma count_at_grows: "keys d \<subseteq> keys (count_at kws w i d)"
  unfolding count_at_def
  by (rule fold_grows) (auto simp: count_pair_keys)

lemma count_at_reaches:
  assumes "j \<in> set (window_range i w (length kws))" and "i \<noteq> j"
  shows "sorted_pair (kws ! i) (kws ! j) \<in> keys (count_at kws w i d)"
  unfolding count_at_def
  using _ assms(1)
proof (rule fold_reaches)
  show "keys d \<subseteq> keys (if i \<noteq> x then count_pair (sorted_pair (kws ! i) (kws ! x)) d else d)"
    for x d by (auto simp: count_pair_keys)
  show "sorted_pair (kws ! i) (kws ! j)
        \<in> keys (if i \<noteq> j then count_pair (sorted_pair (kws ! i) (kws ! j)) d else d)"
    for d using assms(2) by (simp add: count_pair_keys)
qed

lemma count_document_positive:
  "counts_positive d \<Longrightarrow> counts_positive (count_document kws w d)"
  unfolding count_document_def
  by (rule fold_invariant) (auto simp: count_at_positive)

lemma count_document_grows: "keys d \<subseteq> keys (count_document kws w d)"
  unfolding count_document_def
  by (rule fold_grows) (rule count_at_grows)

lemma count_document_reaches:
  assumes "i < length kws" and "j \<in> set (window_range i w (length kws))" and "i \<noteq> j"
  shows "sorted_pair (kws ! i) (kws ! j) \<in> keys (count_document kws w d)"
  unfolding count_document_def
proof (rule fold_reaches)
  show "keys d \<subseteq> keys (count_at kws w x d)" for x d by (rule count_at_grows)
  show "i \<in> set [0 ..< length kws]" using assms(1) by simp
  show "sorted_pair (kws ! i) (kws ! j) \<in> keys (count_at kws w i d)" for d
    using assms(2,3) by (rule count_at_reaches)
qed

lemma get_cooccurrence_matrix_positive:
  "counts_positive (get_cooccurrence_matrix L texts E I w)"
  unfolding get_cooccurrence_matrix_def
proof (rule fold_invariant)
  show "counts_positive (count_document (extract_keywords L x E I) w d)"
    if "counts_positive d" for x d using that by (rule count_document_positive)
  show "counts_positive []" by (simp add: counts_positive_def)
qed

lemma get_cooccurrence_matrix_reaches:
  assumes "text \<in> set texts" and "i < length (extract_keywords L text E I)"
    and "j \<in> set (window_range i w (length (extract_keywords L text E I)))" and "i \<noteq> j"
  shows "sorted_pair (extract_keywords L text E I ! i) (extract_keywords L text E I ! j)
         \<in> keys (get_cooccurrence_matrix L texts E I w)"
  unfolding get_cooccurrence_matrix_def
proof (rule fold_reaches)
  show "keys d \<subseteq> keys (count_document (extract_keywords L x E I) w d)" for x d
    by (rule count_document_grows)
  show "text \<in> set texts" by (rule assms(1))
  show "sorted_pair (extract_keywords L text E I ! i) (extract_keywords L text E I ! j)
        \<in> keys (count_document (extract_keywords L text E I) w d)" for d
    using assms(2,3,4) by (rule count_document_reaches)
qed

lemma window_range_later:
  "i < j \<Longrightarrow> j < n \<Longrightarrow> int j - int i \<le> w \<Longrightarrow> j \<in> set (window_range i w n)"
  by (auto simp: window_range_def)

lemma positive_key_lookup:
  assumes "counts_positive d" and "p \<in> keys d"
  shows "\<exists>c. map_of d p = Some c \<and> 0 < c"
proof -
  from assms(2) have "p \<in> fst ` set d" by (simp add: keys_def)
  then have "map_of d p \<noteq> None" by (simp add: map_of_eq_None_iff)
  then obtain c where c: "map_of d p = Some c" by blast
  then have "(p, c) \<in> set d" by (rule map_of_SomeD)
  with assms(1) have "0 < c" by (auto simp: counts_positive_def)
  with c show ?thesis by blast
qed

section \<open>Self-loops\<close>

lemma has_edge_keys: "has_edge g u v \<longleftrightarrow> {u, v} \<in> set (edge_keys (edges g))"
proof -
  have "has_edge g u v \<longleftrightarrow> (\<exists>x \<in> set (edges g). same_edge (u, v) (fst x))"
    by (simp add: has_edge_def list_ex_iff case_prod_unfold)
  also have "\<dots> \<longleftrightarrow> (\<exists>x \<in> set (edges g). edge_key (fst x) = {u, v})"
    by (auto simp: same_edge_key edge_key_def)
  also have "\<dots> \<longleftrightarrow> {u, v} \<in> set (edge_keys (edges g))"
    by (auto simp: edge_keys_def)
  finally show ?thesis .
qed

lemma create_network_has_edge:
  assumes "((u, v), c) \<in> set d" and "t \<le> c"
  shows "has_edge (fst (create_network self d t)) u v"
proof -
  from assms have "(u, v) \<in> frequent t d" by (force simp: frequent_def)
  then have "{u, v} \<in> edge_key ` frequent t d" by (force simp: edge_key_def)
  then show ?thesis
    by (simp add: has_edge_keys create_network_add_edges add_edges_keys)
qed

lemma sorted_pair_same: "sorted_pair w w = (w, w)"
  by (simp add: sorted_pair_def)

text \<open>
  C10: the pair loop skips equal positions, not equal tokens.  Whenever a keyword list
  of a document holds the same token \<open>w\<close> at two positions \<open>i < j\<close> at distance at most the
  window size, the co-occurrence map has the key \<open>(w, w)\<close> with a positive count \<open>c\<close>, and
  \<open>create_network\<close> has the self-loop edge at \<open>w\<close> for every threshold \<open>t \<le> c\<close>.
\<close>

theorem repeated_token_self_loop:
  assumes "doc \<in> set texts"
    and "i < j" and "j < length (extract_keywords L doc E I)"
    and "int j - int i \<le> window_size"
    and "extract_keywords L doc E I ! i = w" and "extract_keywords L doc E I ! j = w"
  shows "\<exists>c. map_of (get_cooccurrence_matrix L texts E I window_size) (w, w) = Some c \<and> 0 < c
           \<and> (\<forall>t. t \<le> c \<longrightarrow>
                 has_edge (fst (create_network self
                   (get_cooccurrence_matrix L texts E I window_size) t)) w w)"
proof -
  let ?kws = "extract_keywords L doc E I"
  let ?d = "get_cooccurrence_matrix L texts E I window_size"
  from assms(2,3,4) have j: "j \<in> set (window_range i window_size (length ?kws))"
    by (rule window_range_later)
  from assms(2,3) have i: "i < length ?kws" and ne: "i \<noteq> j" by simp_all
  from assms(1) i j ne have "sorted_pair (?kws ! i) (?kws ! j) \<in> keys ?d"
    by (rule get_cooccurrence_matrix_reaches)
  then have "(w, w) \<in> keys ?d" by (simp add: assms(5,6) sorted_pair_same)
  with get_cooccurrence_matrix_positive obtain c where c: "map_of ?d (w, w) = Some c" "0 < c"
    using positive_key_lookup by blast
  from c(1) have "((w, w), c) \<in> set ?d" by (rule map_of_SomeD)
  then have "has_edge (fst (create_network self ?d t)) w w" if "t \<le> c" for t
    using that by (rule create_network_has_edge)
  with c show ?thesis by blast
qed

theorem repeated_token_self_loop_witness:
  "extract_keywords ascii_textlib (str_of ''clean clean room'') None None
     = [str_of ''clean'', str_of ''clean'', str_of ''room'']
   \<and> map_of (get_cooccurrence_matrix ascii_textlib [str_of ''clean clean room''] None None 5)
       (str_of ''clean'', str_of ''clean'') = Some 2
   \<and> has_edge (fst (create_network \<lparr>graph = None\<rparr>
         (get_cooccurrence_matrix ascii_textlib [str_of ''clean clean room''] None None 5) 2))
       (str_of ''clean'') (str_of ''clean'')"
proof -
  let ?text = "str_of ''clean clean room''"
  let ?d = "get_cooccurrence_matrix ascii_textlib [?text] None None 5"
  have k: "extract_keywords ascii_textlib ?text None None
     = [str_of ''clean'', str_of ''clean'', str_of ''room'']"
    by code_simp
  have v: "map_of ?d (str_of ''clean'', str_of ''clean'') = Some 2"
    by code_simp
  have "\<exists>c. map_of ?d (str_of ''clean'', str_of ''clean'') = Some c \<and> 0 < c
           \<and> (\<forall>t. t \<le> c \<longrightarrow> has_edge (fst (create_network \<lparr>graph = None\<rparr> ?d t))
                 (str_of ''clean'') (str_of ''clean''))"
    by (rule repeated_token_self_loop [where doc = "?text" and i = 0 and j = 1])
       (simp_all add: k)
  with v have "has_edge (fst (create_network \<lparr>graph = None\<rparr> ?d 2))
                 (str_of ''clean'') (str_of ''clean'')"
    by auto
  with k v show ?thesis by blast
qed

section \<open>The centrality table\<close>

text \<open>
  Rounding stays between the floor and the ceiling.  The table is the sorted list of one
  row per node, \<open>row_of\<close>, whose scores are the rounded scores of the four routines.
\<close>

lemma round_half_even_lower: "\<lfloor>x\<rfloor> \<le> round_half_even x"
  by (simp add: round_half_even_def Let_def)

lemma round_half_even_upper: "round_half_even x \<le> \<lceil>x\<rceil>"
proof (cases "x - of_int \<lfloor>x\<rfloor> < 1 / 2")
  case True
  then have "round_half_even x = \<lfloor>x\<rfloor>" by (simp add: round_half_even_def Let_def)
  then show ?thesis by (simp add: floor_le_ceiling)
next
  case False
  then have "of_int \<lfloor>x\<rfloor> < x" by simp
  then have "\<lfloor>x\<rfloor> < \<lceil>x\<rceil>" by (simp add: less_ceiling_iff)
  moreover have "round_half_even x \<le> \<lfloor>x\<rfloor> + 1" by (simp add: round_half_even_def Let_def)
  ultimately show ?thesis by linarith
qed

lemma round4_zero: "round4 0 = 0"
  by (simp add: round4_def round_half_even_def)

lemma round4_unit:
  assumes "0 \<le> x" and "x \<le> 1"
  shows "0 \<le> round4 x \<and> round4 x \<le> 1"
proof -
  from assms(1) have "0 \<le> \<lfloor>x * 10000\<rfloor>" by simp
  with round_half_even_lower [of "x * 10000"] have lo: "0 \<le> round_half_even (x * 10000)"
    by linarith
  from assms(2) have "x * 10000 \<le> of_int 10000" by simp
  then have "\<lceil>x * 10000\<rceil> \<le> 10000" by (simp only: ceiling_le_iff)
  with round_half_even_upper [of "x * 10000"] have hi: "round_half_even (x * 10000) \<le> 10000"
    by linarith
  from lo hi show ?thesis by (simp add: round4_def)
qed

definition degree_score :: "nx_graph \<Rightarrow> str \<Rightarrow> real" where
  "degree_score g n =
     (if length (nodes g) \<le> 1 then 1 else real (degree g n) / (real (length (nodes g)) - 1))"

definition eigenvector_score :: "nxlib \<Rightarrow> nx_graph \<Rightarrow> str \<Rightarrow> real" where
  "eigenvector_score N g n =
     (case nx_eigenvector_centrality N g 1000 of Inl e \<Rightarrow> 0 | Inr score \<Rightarrow> score n)"

definition row_of :: "nxlib \<Rightarrow> nx_graph \<Rightarrow> str \<Rightarrow> centrality_row" where
  "row_of N g n =
     \<lparr>keyword = n,
      degree_centrality = round4 (degree_score g n),
      betweenness_centrality = round4 (nx_betweenness_centrality g n),
      closeness_centrality = round4 (nx_closeness_centrality g n),
      eigenvector_centrality = round4 (eigenvector_score N g n)\<rparr>"

lemma zip_map_same: "zip (map f xs) (map h xs) = map (\<lambda>x. (f x, h x)) xs"
  by (induction xs) auto

lemma nx_degree_centrality_map:
  "nx_degree_centrality g = map (\<lambda>n. (n, degree_score g n)) (nodes g)"
  by (simp add: nx_degree_centrality_def degree_score_def Let_def)

lemma calculate_centrality_metrics_rows:
  assumes "graph self = Some g" and "nodes g \<noteq> []"
  shows "calculate_centrality_metrics N self =
           sort_key (\<lambda>row. - degree_centrality row) (map (row_of N g) (nodes g))"
proof (cases "nx_eigenvector_centrality N g 1000")
  case (Inl e)
  with assms show ?thesis
    by (simp add: calculate_centrality_metrics_def Let_def nx_degree_centrality_map
        zip_map_same row_of_def [abs_def] eigenvector_score_def comp_def)
next
  case (Inr score)
  with assms show ?thesis
    by (simp add: calculate_centrality_metrics_def Let_def nx_degree_centrality_map
        zip_map_same row_of_def [abs_def] eigenvector_score_def comp_def)
qed

lemma calculate_centrality_metrics_empty:
  "graph self = None \<or> (graph self = Some g \<and> nodes g = []) \<Longrightarrow>
   calculate_centrality_metrics N self = []"
  by (auto simp: calculate_centrality_metrics_def)

lemma calculate_centrality_metrics_set:
  assumes "graph self = Some g" and "nodes g \<noteq> []"
  shows "set (calculate_centrality_metrics N self) = row_of N g ` set (nodes g)"
  by (simp add: calculate_centrality_metrics_rows [OF assms])

lemma calculate_centrality_metrics_length:
  assumes "graph self = Some g" and "nodes g \<noteq> []"
  shows "length (calculate_centrality_metrics N self) = length (nodes g)"
  by (simp add: calculate_centrality_metrics_rows [OF assms])

lemma row_of_keyword: "keyword (row_of N g n) = n"
  by (simp add: row_of_def)

lemma calculate_centrality_metrics_keywords:
  assumes "graph self = Some g" and "nodes g \<noteq> []"
  shows "mset (map keyword (calculate_centrality_metrics N self)) = mset (nodes g)"
proof -
  have "mset (map keyword (calculate_centrality_metrics N self))
        = image_mset keyword (mset (map (row_of N g) (nodes g)))"
    by (simp add: calculate_centrality_metrics_rows [OF assms])
  also have "\<dots> = mset (map (\<lambda>n. keyword (row_of N g n)) (nodes g))"
    by (simp add: multiset.map_comp comp_def)
  also have "\<dots> = mset (nodes g)" by (simp add: row_of_keyword)
  finally show ?thesis .
qed

text \<open>
  C3: if eigenvector centrality raises on the current graph (it did not converge),
  \<open>calculate_centrality_metrics\<close> still returns the table: its keywords are the nodes of
  the graph, each as often as it is a node, every node has a row, and every row is the
  row of a node and has eigenvector score 0.  If there is no graph or the graph has no
  nodes it returns the empty table.
\<close>

theorem eigenvector_failure_defaults:
  "(graph self = Some g \<and> nodes g \<noteq> [] \<and> nx_eigenvector_centrality N g 1000 = Inl e \<longrightarrow>
      mset (map keyword (calculate_centrality_metrics N self)) = mset (nodes g)
      \<and> (\<forall>n \<in> set (nodes g). \<exists>row \<in> set (calculate_centrality_metrics N self).
            keyword row = n \<and> eigenvector_centrality row = 0)
      \<and> list_all (\<lambda>row. keyword row \<in> set (nodes g) \<and> eigenvector_centrality row = 0)
           (calculate_centrality_metrics N self))
   \<and> (graph self = None \<or> (graph self = Some g \<and> nodes g = []) \<longrightarrow>
      calculate_centrality_metrics N self = [])"
proof (intro conjI impI)
  assume a: "graph self = Some g \<and> nodes g \<noteq> [] \<and> nx_eigenvector_centrality N g 1000 = Inl e"
  then show "mset (map keyword (calculate_centrality_metrics N self)) = mset (nodes g)"
    using calculate_centrality_metrics_keywords by blast
  from a have rows: "set (calculate_centrality_metrics N self) = row_of N g ` set (nodes g)"
    by (simp add: calculate_centrality_metrics_set)
  from a have zero: "eigenvector_centrality (row_of N g n) = 0" for n
    by (simp add: row_of_def eigenvector_score_def round4_zero)
  show "\<forall>n \<in> set (nodes g). \<exists>row \<in> set (calculate_centrality_metrics N self).
          keyword row = n \<and> eigenvector_centrality row = 0"
  proof
    fix n assume "n \<in> set (nodes g)"
    then have "row_of N g n \<in> set (calculate_centrality_metrics N self)" by (simp add: rows)
    moreover have "keyword (row_of N g n) = n \<and> eigenvector_centrality (row_of N g n) = 0"
      by (simp add: row_of_keyword zero)
    ultimately show "\<exists>row \<in> set (calculate_centrality_metrics N self).
          keyword row = n \<and> eigenvector_centrality row = 0" by blast
  qed
  show "list_all (\<lambda>row. keyword row \<in> set (nodes g) \<and> eigenvector_centrality row = 0)
          (calculate_centrality_metrics N self)"
    by (auto simp: list_all_iff rows row_of_keyword zero)
next
  assume "graph self = None \<or> (graph self = Some g \<and> nodes g = [])"
  then show "calculate_centrality_metrics N self = []"
    by (rule calculate_centrality_metrics_empty)
qed

theorem eigenvector_failure_defaults_witness:
  "nx_eigenvector_centrality \<lparr>converges_after = (\<lambda>g. None)\<rparr>
     \<lparr>nodes = [str_of ''clean'', str_of ''room''],
      edges = [((str_of ''clean'', str_of ''room''), 4)]\<rparr> 1000
     = Inl PowerIterationFailedConvergence
   \<and> calculate_centrality_metrics \<lparr>converges_after = (\<lambda>g. None)\<rparr>
        \<lparr>graph = Some \<lparr>nodes = [str_of ''clean'', str_of ''room''],
                        edges = [((str_of ''clean'', str_of ''room''), 4)]\<rparr>\<rparr>
      = [\<lparr>keyword = str_of ''clean'', degree_centrality = 1, betweenness_centrality = 0,
          closeness_centrality = 1, eigenvector_centrality = 0\<rparr>,
         \<lparr>keyword = str_of ''room'', degree_centrality = 1, betweenness_centrality = 0,
          closeness_centrality = 1, eigenvector_centrality = 0\<rparr>]
   \<and> mset (map keyword (calculate_centrality_metrics \<lparr>converges_after = (\<lambda>g. None)\<rparr>
        \<lparr>graph = Some \<lparr>nodes = [str_of ''clean'', str_of ''room''],
                        edges = [((str_of ''clean'', str_of ''room''), 4)]\<rparr>\<rparr>))
      = mset [str_of ''clean'', str_of ''room'']
   \<and> list_all (\<lambda>row. keyword row \<in> set [str_of ''clean'', str_of ''room'']
                  \<and> eigenvector_centrality row = 0)
        (calculate_centrality_metrics \<lparr>converges_after = (\<lambda>g. None)\<rparr>
           \<lparr>graph = Some \<lparr>nodes = [str_of ''clean'', str_of ''room''],
                           edges = [((str_of ''clean'', str_of ''room''), 4)]\<rparr>\<rparr>)
   \<and> calculate_centrality_metrics \<lparr>converges_after = (\<lambda>g. None)\<rparr> \<lparr>graph = None\<rparr> = []"
proof -
  let ?g = "\<lparr>nodes = [str_of ''clean'', str_of ''room''],
             edges = [((str_of ''clean'', str_of ''room''), 4)]\<rparr>"
  let ?N = "\<lparr>converges_after = (\<lambda>g. None)\<rparr>"
  let ?rows = "calculate_centrality_metrics ?N \<lparr>graph = Some ?g\<rparr>"
  have f: "nx_eigenvector_centrality ?N ?g 1000 = Inl PowerIterationFailedConvergence"
    by (simp add: nx_eigenvector_centrality_def)
  have h: "graph \<lparr>graph = Some ?g\<rparr> = Some ?g \<and> nodes ?g \<noteq> []
           \<and> nx_eigenvector_centrality ?N ?g 1000 = Inl PowerIterationFailedConvergence"
    using f by simp
  have k: "graph \<lparr>graph = None\<rparr> = None \<or> (graph \<lparr>graph = None\<rparr> = Some ?g \<and> nodes ?g = [])"
    by simp
  have table: "?rows
      = [\<lparr>keyword = str_of ''clean'', degree_centrality = 1, betweenness_centrality = 0,
          closeness_centrality = 1, eigenvector_centrality = 0\<rparr>,
         \<lparr>keyword = str_of ''room'', degree_centrality = 1, betweenness_centrality = 0,
          closeness_centrality = 1, eigenvector_centrality = 0\<rparr>]"
    by code_simp
  from eigenvector_failure_defaults
         [of "\<lparr>graph = Some ?g\<rparr>" ?g ?N PowerIterationFailedConvergence] h
  have a: "mset (map keyword ?rows) = mset (nodes ?g)
           \<and> list_all (\<lambda>row. keyword row \<in> set (nodes ?g) \<and> eigenvector_centrality row = 0) ?rows"
    by blast
  from eigenvector_failure_defaults
         [of "\<lparr>graph = None\<rparr>" ?g ?N PowerIterationFailedConvergence] k
  have b: "calculate_centrality_metrics ?N \<lparr>graph = None\<rparr> = []"
    by blast
  have n: "nodes ?g = [str_of ''clean'', str_of ''room'']" by simp
  from f table a b show ?thesis unfolding n by blast
qed

section \<open>Degrees in a graph without self-loops\<close>

text \<open>
  In a graph built by \<open>create_network\<close> that has no self-loop, the edges at a node lead to
  distinct other nodes, so the degree is at most the number of other nodes.
\<close>

lemma degree_count:
  assumes "\<forall>x \<in> set es. fst (fst x) \<noteq> snd (fst x)"
  shows "sum_list (map (\<lambda>x. (if fst (fst x) = n then 1 else 0) + (if snd (fst x) = n then 1 else 0)) es)
         = length (filter (\<lambda>x. n \<in> edge_key (fst x)) es)"
  using assms by (induction es) (auto simp: edge_key_def)

lemma incident_count:
  assumes "distinct (edge_keys es)"
  shows "length (filter (\<lambda>x. n \<in> edge_key (fst x)) es) = card {k \<in> set (edge_keys es). n \<in> k}"
proof -
  have m: "map (\<lambda>x. edge_key (fst x)) (filter (\<lambda>x. n \<in> edge_key (fst x)) es)
        = filter (\<lambda>k. n \<in> k) (edge_keys es)"
    by (simp add: edge_keys_def filter_map comp_def)
  from assms have "distinct (filter (\<lambda>k. n \<in> k) (edge_keys es))" by simp
  then have "card (set (filter (\<lambda>k. n \<in> k) (edge_keys es)))
             = length (filter (\<lambda>k. n \<in> k) (edge_keys es))"
    by (rule distinct_card)
  also have "\<dots> = length (filter (\<lambda>x. n \<in> edge_key (fst x)) es)"
    by (simp only: m [symmetric] length_map)
  finally show ?thesis by simp
qed

lemma neighbours_bound:
  assumes fin: "finite V" and n: "n \<in> V"
    and edges: "\<forall>k \<in> K. \<exists>u v. k = {u, v} \<and> u \<noteq> v \<and> u \<in> V \<and> v \<in> V"
  shows "card {k \<in> K. n \<in> k} \<le> card V - 1"
proof -
  have "{k \<in> K. n \<in> k} \<subseteq> (\<lambda>m. {n, m}) ` (V - {n})"
  proof
    fix k assume "k \<in> {k \<in> K. n \<in> k}"
    then have k: "k \<in> K" and nk: "n \<in> k" by simp_all
    from edges k obtain u v where uv: "k = {u, v}" "u \<noteq> v" "u \<in> V" "v \<in> V" by blast
    from nk uv(1) have "n = u \<or> n = v" by simp
    then show "k \<in> (\<lambda>m. {n, m}) ` (V - {n})"
    proof
      assume "n = u"
      with uv have "k = {n, v}" "v \<in> V - {n}" by auto
      then show ?thesis by blast
    next
      assume "n = v"
      with uv have "k = {n, u}" "u \<in> V - {n}" by auto
      then show ?thesis by blast
    qed
  qed
  moreover from fin have f: "finite ((\<lambda>m. {n, m}) ` (V - {n}))" by simp
  ultimately have "card {k \<in> K. n \<in> k} \<le> card ((\<lambda>m. {n, m}) ` (V - {n}))"
    by (simp add: card_mono)
  also from fin have "\<dots> \<le> card (V - {n})" by (simp add: card_image_le)
  also from fin n have "\<dots> = card V - 1" by simp
  finally show ?thesis .
qed

lemma add_edges_endpoints:
  "set (edge_keys (edges (add_edges t d empty_graph))) = edge_key ` frequent t d"
  "set (nodes (add_edges t d empty_graph)) = \<Union> (edge_key ` frequent t d)"
  by (simp_all add: add_edges_keys add_edges_nodes empty_graph_def edge_keys_Nil)

lemma degree_bound:
  assumes g: "g = add_edges t d empty_graph"
    and noloop: "\<forall>w. \<not> has_edge g w w"
    and n: "n \<in> set (nodes g)"
  shows "degree g n \<le> length (nodes g) - 1"
proof -
  have ok: "graph_ok g" unfolding g by (rule add_edges_ok) (rule empty_graph_ok)
  have loopfree: "\<forall>x \<in> set (edges g). fst (fst x) \<noteq> snd (fst x)"
  proof
    fix x assume x: "x \<in> set (edges g)"
    show "fst (fst x) \<noteq> snd (fst x)"
    proof
      assume eq: "fst (fst x) = snd (fst x)"
      from x have "edge_key (fst x) \<in> set (edge_keys (edges g))" by (simp add: edge_keys_def)
      with eq have "has_edge g (fst (fst x)) (fst (fst x))"
        by (simp add: has_edge_keys edge_key_def)
      with noloop show False by blast
    qed
  qed
  have shape: "\<forall>k \<in> set (edge_keys (edges g)).
                 \<exists>u v. k = {u, v} \<and> u \<noteq> v \<and> u \<in> set (nodes g) \<and> v \<in> set (nodes g)"
  proof
    fix k assume k: "k \<in> set (edge_keys (edges g))"
    then obtain x where x: "x \<in> set (edges g)" "k = edge_key (fst x)"
      by (auto simp: edge_keys_def)
    from k have "k \<in> edge_key ` frequent t d" by (simp add: g add_edges_endpoints)
    then have "k \<subseteq> set (nodes g)" unfolding g add_edges_endpoints by blast
    with x loopfree show "\<exists>u v. k = {u, v} \<and> u \<noteq> v \<and> u \<in> set (nodes g) \<and> v \<in> set (nodes g)"
      by (auto simp: edge_key_def)
  qed
  have "degree g n = length (filter (\<lambda>x. n \<in> edge_key (fst x)) (edges g))"
    unfolding degree_def using loopfree by (rule degree_count)
  also from ok have "\<dots> = card {k \<in> set (edge_keys (edges g)). n \<in> k}"
    by (simp add: incident_count graph_ok_def)
  also have "\<dots> \<le> card (set (nodes g)) - 1"
    using _ n shape by (rule neighbours_bound) simp
  also from ok have "\<dots> = length (nodes g) - 1" by (simp add: graph_ok_def distinct_card)
  finally show ?thesis .
qed

lemma degree_score_unit:
  assumes "g = add_edges t d empty_graph" and "\<forall>w. \<not> has_edge g w w" and "n \<in> set (nodes g)"
  shows "0 \<le> degree_score g n \<and> degree_score g n \<le> 1"
proof (cases "length (nodes g) \<le> 1")
  case True
  then show ?thesis by (simp add: degree_score_def)
next
  case False
  from assms have "degree g n \<le> length (nodes g) - 1" by (rule degree_bound)
  with False have "real (degree g n) \<le> real (length (nodes g)) - 1" by linarith
  moreover from False have "0 < real (length (nodes g)) - 1" by simp
  ultimately show ?thesis using False by (simp add: degree_score_def)
qed

section \<open>The ranges of betweenness, closeness and eigenvector centrality\<close>

text \<open>
  Each of the three scores is a quotient of a part by a whole: shortest paths through a
  node among all shortest paths, over all pairs of other nodes; nodes reached by total
  distance and by the number of other nodes; a component of a non-negative vector by its
  Euclidean norm.
\<close>

lemma sum_list_bounds:
  assumes "\<And>x. x \<in> set xs \<Longrightarrow> 0 \<le> f x \<and> f x \<le> (c :: real)"
  shows "0 \<le> sum_list (map f xs) \<and> sum_list (map f xs) \<le> c * real (length xs)"
  using assms
proof (induction xs)
  case Nil
  show ?case by simp
next
  case (Cons x xs)
  then have "0 \<le> f x \<and> f x \<le> c" by simp
  moreover from Cons have "0 \<le> sum_list (map f xs) \<and> sum_list (map f xs) \<le> c * real (length xs)"
    by simp
  ultimately show ?case by (simp add: algebra_simps)
qed

lemma length_filter_others:
  assumes "distinct xs" and "A \<subseteq> set xs" and "finite A"
  shows "length (filter (\<lambda>x. x \<notin> A) xs) = length xs - card A"
proof -
  from assms(1) have "distinct (filter (\<lambda>x. x \<notin> A) xs)" by simp
  then have "card (set (filter (\<lambda>x. x \<notin> A) xs)) = length (filter (\<lambda>x. x \<notin> A) xs)"
    by (rule distinct_card)
  then have "length (filter (\<lambda>x. x \<notin> A) xs) = card (set (filter (\<lambda>x. x \<notin> A) xs))"
    by (rule sym)
  also have "set (filter (\<lambda>x. x \<notin> A) xs) = set xs - A" by auto
  also from assms(2) have "card (set xs - A) = card (set xs) - card A"
    by (simp add: card_Diff_subset assms(3))
  also from assms(1) have "card (set xs) = length xs" by (rule distinct_card)
  finally show ?thesis .
qed

subsection \<open>Betweenness\<close>

lemma pair_dependency_unit: "0 \<le> pair_dependency g s t v \<and> pair_dependency g s t v \<le> 1"
proof -
  have "length (filter (\<lambda>p. v \<in> set p) (shortest_paths g s t)) \<le> length (shortest_paths g s t)"
    by (rule length_filter_le)
  then show ?thesis
    by (auto simp: pair_dependency_def Let_def divide_le_eq_1)
qed

lemma betweenness_unit:
  assumes d: "distinct (nodes g)" and v: "v \<in> set (nodes g)"
  shows "0 \<le> nx_betweenness_centrality g v \<and> nx_betweenness_centrality g v \<le> 1"
proof -
  let ?n = "length (nodes g)"
  let ?inner = "\<lambda>s. sum_list (map (\<lambda>t. pair_dependency g s t v)
                        (filter (\<lambda>t. t \<noteq> v \<and> t \<noteq> s) (nodes g)))"
  let ?total = "sum_list (map ?inner (filter (\<lambda>s. s \<noteq> v) (nodes g)))"
  have inner: "0 \<le> ?inner s \<and> ?inner s \<le> real (?n - 2)"
    if s: "s \<in> set (filter (\<lambda>s. s \<noteq> v) (nodes g))" for s
  proof -
    from s have sv: "s \<noteq> v" "s \<in> set (nodes g)" by simp_all
    have "filter (\<lambda>t. t \<noteq> v \<and> t \<noteq> s) (nodes g) = filter (\<lambda>t. t \<notin> {v, s}) (nodes g)"
      by (rule filter_cong) auto
    moreover from d v sv have "length (filter (\<lambda>t. t \<notin> {v, s}) (nodes g)) = ?n - card {v, s}"
      by (intro length_filter_others) auto
    moreover from sv have "card {v, s} = 2" by simp
    ultimately have len: "length (filter (\<lambda>t. t \<noteq> v \<and> t \<noteq> s) (nodes g)) = ?n - 2" by simp
    have "0 \<le> ?inner s \<and> ?inner s \<le> 1 * real (length (filter (\<lambda>t. t \<noteq> v \<and> t \<noteq> s) (nodes g)))"
      by (rule sum_list_bounds) (rule pair_dependency_unit)
    with len show ?thesis by simp
  qed
  have "filter (\<lambda>s. s \<noteq> v) (nodes g) = filter (\<lambda>s. s \<notin> {v}) (nodes g)"
    by (rule filter_cong) auto
  moreover from d v have "length (filter (\<lambda>s. s \<notin> {v}) (nodes g)) = ?n - card {v}"
    by (intro length_filter_others) auto
  ultimately have len1: "length (filter (\<lambda>s. s \<noteq> v) (nodes g)) = ?n - 1" by simp
  have "0 \<le> ?total \<and> ?total \<le> real (?n - 2) * real (length (filter (\<lambda>s. s \<noteq> v) (nodes g)))"
    by (rule sum_list_bounds) (rule inner)
  with len1 have bound: "0 \<le> ?total \<and> ?total \<le> real (?n - 2) * real (?n - 1)" by simp
  define T where "T = ?total"
  define D where "D = real (?n - 1) * real (?n - 2)"
  from bound have total: "0 \<le> T" "T \<le> D" by (simp_all add: T_def D_def mult.commute)
  show ?thesis
  proof (cases "?n \<le> 2")
    case True
    then have "D = 0" by (auto simp: D_def)
    with total have "T = 0" by linarith
    with True show ?thesis by (simp add: nx_betweenness_centrality_def Let_def T_def)
  next
    case False
    then have pos: "0 < D" by (simp add: D_def)
    from False have "nx_betweenness_centrality g v = T / D"
      by (simp add: nx_betweenness_centrality_def Let_def T_def D_def)
    with total pos show ?thesis by (simp add: divide_le_eq_1)
  qed
qed

subsection \<open>Closeness\<close>

lemma neighbors_subset:
  assumes "\<forall>x \<in> set (edges g). fst (fst x) \<in> V \<and> snd (fst x) \<in> V"
  shows "set (neighbors g m) \<subseteq> V"
  using assms by (auto simp: neighbors_def split: if_splits)

lemma add_edges_edge_nodes:
  assumes g: "g = add_edges t d empty_graph"
  shows "\<forall>x \<in> set (edges g). fst (fst x) \<in> set (nodes g) \<and> snd (fst x) \<in> set (nodes g)"
proof
  fix x assume "x \<in> set (edges g)"
  then have "edge_key (fst x) \<in> set (edge_keys (edges g))" by (simp add: edge_keys_def)
  then have "edge_key (fst x) \<in> edge_key ` frequent t d" by (simp add: g add_edges_endpoints)
  then have "edge_key (fst x) \<subseteq> set (nodes g)" unfolding g add_edges_endpoints by blast
  then show "fst (fst x) \<in> set (nodes g) \<and> snd (fst x) \<in> set (nodes g)"
    by (simp add: edge_key_def)
qed

lemma bfs_levels_distance:
  "x \<in> set (bfs_levels g fuel d frontier seen) \<Longrightarrow> d \<le> snd x"
proof (induction fuel arbitrary: d frontier seen)
  case 0
  then show ?case by simp
next
  case (Suc fuel)
  show ?case
  proof (cases "frontier = []")
    case True
    with Suc.prems show ?thesis by simp
  next
    case False
    let ?next = "remdups (filter (\<lambda>m. m \<notin> set seen) (concat (map (neighbors g) frontier)))"
    from False Suc.prems have "x \<in> (\<lambda>n. (n, d)) ` set frontier
        \<or> x \<in> set (bfs_levels g fuel (Suc d) ?next (seen @ ?next))"
      by (auto simp: Let_def)
    then show ?thesis
    proof
      assume "x \<in> (\<lambda>n. (n, d)) ` set frontier"
      then show ?thesis by auto
    next
      assume "x \<in> set (bfs_levels g fuel (Suc d) ?next (seen @ ?next))"
      then have "Suc d \<le> snd x" by (rule Suc.IH)
      then show ?thesis by simp
    qed
  qed
qed

lemma bfs_levels_nodes:
  assumes "\<And>m. set (neighbors g m) \<subseteq> V"
    and "distinct frontier" and "set frontier \<subseteq> set seen" and "set seen \<subseteq> V"
  shows "distinct (map fst (bfs_levels g fuel d frontier seen))
       \<and> set (map fst (bfs_levels g fuel d frontier seen)) \<subseteq> set frontier \<union> (V - set seen)"
  using assms(2-4)
proof (induction fuel arbitrary: d frontier seen)
  case 0
  show ?case by simp
next
  case (Suc fuel)
  show ?case
  proof (cases "frontier = []")
    case True
    then show ?thesis by simp
  next
    case False
    define nxt where
      "nxt = remdups (filter (\<lambda>m. m \<notin> set seen) (concat (map (neighbors g) frontier)))"
    define rc where "rc = map fst (bfs_levels g fuel (Suc d) nxt (seen @ nxt))"
    have nextV: "set nxt \<subseteq> V - set seen" unfolding nxt_def using assms(1) by auto
    have "distinct nxt" by (simp add: nxt_def)
    moreover have "set nxt \<subseteq> set (seen @ nxt)" by simp
    moreover from Suc.prems(3) nextV have "set (seen @ nxt) \<subseteq> V" by auto
    ultimately have ih: "distinct rc \<and> set rc \<subseteq> set nxt \<union> (V - set (seen @ nxt))"
      unfolding rc_def by (rule Suc.IH)
    from ih nextV have rec: "set rc \<subseteq> V - set seen" by auto
    have res: "map fst (bfs_levels g (Suc fuel) d frontier seen) = frontier @ rc"
      using False by (simp add: Let_def comp_def rc_def nxt_def)
    from rec Suc.prems(2) have "set frontier \<inter> set rc = {}" by auto
    with ih Suc.prems(1) have "distinct (frontier @ rc)" by simp
    moreover from rec have "set (frontier @ rc) \<subseteq> set frontier \<union> (V - set seen)"
      by auto
    ultimately show ?thesis by (simp only: res)
  qed
qed

lemma sum_list_at_least:
  assumes "\<And>x. x \<in> set xs \<Longrightarrow> (1 :: nat) \<le> f x"
  shows "length xs \<le> sum_list (map f xs)"
  using assms
proof (induction xs)
  case Nil
  show ?case by simp
next
  case (Cons x xs)
  then have "1 \<le> f x" and "length xs \<le> sum_list (map f xs)" by simp_all
  then show ?case by simp
qed

lemma shortest_path_length_facts:
  assumes closed: "\<And>m. set (neighbors g m) \<subseteq> set (nodes g)"
    and d: "distinct (nodes g)" and n: "n \<in> set (nodes g)"
  shows "1 \<le> length (shortest_path_length g n)"
    and "length (shortest_path_length g n) - 1 \<le> sum_list (map snd (shortest_path_length g n))"
    and "length (shortest_path_length g n) \<le> length (nodes g)"
proof -
  let ?sp = "shortest_path_length g n"
  let ?next = "remdups (filter (\<lambda>m. m \<notin> set [n]) (concat (map (neighbors g) [n])))"
  let ?rest = "bfs_levels g (length (nodes g)) (Suc 0) ?next ([n] @ ?next)"
  have sp: "?sp = (n, 0) # ?rest"
    by (simp add: shortest_path_length_def Let_def)
  show "1 \<le> length ?sp" by (simp add: sp)
  have "length ?rest \<le> sum_list (map snd ?rest)"
  proof (rule sum_list_at_least)
    fix x assume "x \<in> set ?rest"
    then have "Suc 0 \<le> snd x" by (rule bfs_levels_distance)
    then show "1 \<le> snd x" by simp
  qed
  then show "length ?sp - 1 \<le> sum_list (map snd ?sp)" by (simp add: sp)
  have "distinct (map fst ?sp) \<and> set (map fst ?sp) \<subseteq> set [n] \<union> (set (nodes g) - set [n])"
    unfolding shortest_path_length_def
    using closed by (rule bfs_levels_nodes) (use n in simp_all)
  with n have dist: "distinct (map fst ?sp)" and sub: "set (map fst ?sp) \<subseteq> set (nodes g)"
    by auto
  from dist have "length ?sp = card (set (map fst ?sp))"
    by (metis distinct_card length_map)
  also from sub have "\<dots> \<le> card (set (nodes g))" by (simp add: card_mono)
  also from d have "\<dots> = length (nodes g)" by (rule distinct_card)
  finally show "length ?sp \<le> length (nodes g)" .
qed

lemma closeness_unit:
  assumes "\<And>m. set (neighbors g m) \<subseteq> set (nodes g)"
    and "distinct (nodes g)" and "n \<in> set (nodes g)"
  shows "0 \<le> nx_closeness_centrality g n \<and> nx_closeness_centrality g n \<le> 1"
proof -
  let ?sp = "shortest_path_length g n"
  define r where "r = real (length ?sp) - 1"
  define tot where "tot = real (sum_list (map snd ?sp))"
  define m where "m = real (length (nodes g)) - 1"
  note f = shortest_path_length_facts [OF assms]
  from f(1) have r0: "0 \<le> r" by (simp add: r_def)
  from f(1,2) have rt: "r \<le> tot" unfolding r_def tot_def by linarith
  from f(1,3) have rm: "r \<le> m" unfolding r_def m_def by linarith
  show ?thesis
  proof (cases "0 < sum_list (map snd ?sp) \<and> 1 < length (nodes g)")
    case False
    have "nx_closeness_centrality g n = 0"
      by (simp only: nx_closeness_centrality_def Let_def False if_False)
    then show ?thesis by simp
  next
    case True
    then have tp: "0 < tot" and mp: "0 < m" by (simp_all add: tot_def m_def)
    from True have c: "nx_closeness_centrality g n = (r / tot) * (r / m)"
      by (simp add: nx_closeness_centrality_def Let_def r_def tot_def m_def)
    from r0 rt tp have a: "0 \<le> r / tot" "r / tot \<le> 1" by (simp_all add: divide_le_eq_1)
    from r0 rm mp have b: "0 \<le> r / m" "r / m \<le> 1" by (simp_all add: divide_le_eq_1)
    from a(1) b(1) have "0 \<le> (r / tot) * (r / m)" by (rule mult_nonneg_nonneg)
    moreover from a b have "(r / tot) * (r / m) \<le> 1 * 1" by (intro mult_mono) simp_all
    ultimately show ?thesis by (simp add: c)
  qed
qed

subsection \<open>Eigenvector\<close>

lemma sum_list_map_nonneg:
  assumes "\<And>x. x \<in> set xs \<Longrightarrow> 0 \<le> (f x :: real)"
  shows "0 \<le> sum_list (map f xs)"
  using assms by (induction xs) (simp_all add: add_nonneg_nonneg)

lemma member_le_sum_list_map:
  assumes "\<And>y. y \<in> set xs \<Longrightarrow> 0 \<le> (f y :: real)" and "x \<in> set xs"
  shows "f x \<le> sum_list (map f xs)"
  using assms
proof (induction xs)
  case Nil
  then show ?case by simp
next
  case (Cons y xs)
  have rest: "0 \<le> sum_list (map f xs)"
    by (rule sum_list_map_nonneg) (simp add: Cons.prems(1))
  have head: "0 \<le> f y" by (simp add: Cons.prems(1))
  show ?case
  proof (cases "x = y")
    case True
    with rest show ?thesis by simp
  next
    case False
    with Cons.prems(2) have "x \<in> set xs" by simp
    with Cons.IH Cons.prems(1) have "f x \<le> sum_list (map f xs)" by simp
    with head show ?thesis by simp
  qed
qed

lemma hypot_nonneg: "0 \<le> hypot xs"
proof -
  have "0 \<le> sum_list (map (\<lambda>x. x\<^sup>2) xs)" by (rule sum_list_map_nonneg) simp
  then show ?thesis by (simp only: hypot_def real_sqrt_ge_zero)
qed

lemma hypot_member:
  assumes "x \<in> set xs" and "0 \<le> x"
  shows "x \<le> hypot xs"
proof -
  have "x\<^sup>2 \<le> sum_list (map (\<lambda>x. x\<^sup>2) xs)"
    by (rule member_le_sum_list_map) (simp_all add: assms(1))
  then have "sqrt (x\<^sup>2) \<le> sqrt (sum_list (map (\<lambda>x. x\<^sup>2) xs))"
    by (simp only: real_sqrt_le_iff)
  moreover from assms(2) have "sqrt (x\<^sup>2) = x" by simp
  ultimately show ?thesis by (simp only: hypot_def)
qed

lemma raw_step_nonneg:
  assumes "\<And>m. 0 \<le> (xlast m :: real)"
  shows "0 \<le> xlast n + sum_list (map xlast ms)"
proof -
  have "0 \<le> sum_list (map xlast ms)" by (rule sum_list_map_nonneg) (rule assms)
  with assms [of n] show ?thesis by simp
qed

lemma power_step_nonneg:
  assumes "\<And>m. 0 \<le> xlast m"
  shows "0 \<le> power_step g xlast n"
proof -
  have "0 \<le> xlast n + sum_list (map xlast (neighbors g n))"
    using assms by (rule raw_step_nonneg)
  moreover have "0 \<le> hypot (map (\<lambda>m. xlast m + sum_list (map xlast (neighbors g m))) (nodes g))"
    by (rule hypot_nonneg)
  ultimately show ?thesis by (simp add: power_step_def Let_def)
qed

lemma power_step_le_one:
  assumes "\<And>m. 0 \<le> xlast m" and "n \<in> set (nodes g)"
  shows "power_step g xlast n \<le> 1"
proof -
  define x where "x = (\<lambda>m. xlast m + sum_list (map xlast (neighbors g m)))"
  define norm where "norm = hypot (map x (nodes g))"
  have x0: "0 \<le> x n" unfolding x_def using assms(1) by (rule raw_step_nonneg)
  from assms(2) have "x n \<in> set (map x (nodes g))" by simp
  then have le: "x n \<le> norm" unfolding norm_def using x0 by (rule hypot_member)
  have n0: "0 \<le> norm" unfolding norm_def by (rule hypot_nonneg)
  have step: "power_step g xlast n = x n / (if norm = 0 then 1 else norm)"
    by (simp add: power_step_def Let_def x_def norm_def)
  show ?thesis
  proof (cases "norm = 0")
    case True
    with le x0 have "x n = 0" by simp
    with True show ?thesis by (simp add: step)
  next
    case False
    with n0 have "0 < norm" by simp
    with le False show ?thesis by (simp add: step divide_le_eq_1)
  qed
qed

lemma power_iterate_nonneg: "0 \<le> power_iterate g k n"
proof (induction k arbitrary: n)
  case 0
  show ?case by simp
next
  case (Suc k)
  show ?case by (simp add: power_step_nonneg Suc)
qed

lemma power_iterate_le_one:
  assumes "1 \<le> k" and "n \<in> set (nodes g)"
  shows "power_iterate g k n \<le> 1"
proof -
  from assms(1) obtain j where k: "k = Suc j" by (cases k) simp_all
  have "power_step g (power_iterate g j) n \<le> 1"
    using power_iterate_nonneg assms(2) by (rule power_step_le_one)
  then show ?thesis by (simp add: k)
qed

lemma eigenvector_unit:
  assumes "nx_eigenvector_centrality N g max_iter = Inr score" and "n \<in> set (nodes g)"
  shows "0 \<le> score n \<and> score n \<le> 1"
proof -
  from assms(1) obtain k where k: "1 \<le> k" and s: "score = power_iterate g k"
    by (auto simp: nx_eigenvector_centrality_def split: if_splits option.splits)
  from k assms(2) show ?thesis by (simp add: s power_iterate_nonneg power_iterate_le_one)
qed

lemma eigenvector_score_unit:
  assumes "n \<in> set (nodes g)"
  shows "0 \<le> eigenvector_score N g n \<and> eigenvector_score N g n \<le> 1"
proof (cases "nx_eigenvector_centrality N g 1000")
  case (Inl e)
  then show ?thesis by (simp add: eigenvector_score_def)
next
  case (Inr score)
  with eigenvector_unit [OF Inr assms] show ?thesis by (simp add: eigenvector_score_def)
qed

section \<open>The ranges of the centrality scores\<close>

text \<open>
  C4 (as stated): for every graph the table has one row per node and all four scores of
  every row lie in [0,1].  This fails for the degree score: a self-loop counts twice in
  the degree, and \<open>create_network\<close> builds self-loops.  The document \<open>clean clean room\<close> gives
  the graph with the edges clean-clean and clean-room, where clean has degree 3 among 2
  nodes and degree centrality 3, whatever the eigenvector routine does.
\<close>

theorem centrality_range_counterexample:
  "\<not> list_all (\<lambda>row. 0 \<le> degree_centrality row \<and> degree_centrality row \<le> 1
                    \<and> 0 \<le> betweenness_centrality row \<and> betweenness_centrality row \<le> 1
                    \<and> 0 \<le> closeness_centrality row \<and> closeness_centrality row \<le> 1
                    \<and> 0 \<le> eigenvector_centrality row \<and> eigenvector_centrality row \<le> 1)
       (calculate_centrality_metrics \<lparr>converges_after = (\<lambda>g. None)\<rparr>
          (snd (create_network \<lparr>graph = None\<rparr>
             (get_cooccurrence_matrix ascii_textlib [str_of ''clean clean room''] None None 5) 2)))
   \<and> map (\<lambda>row. (keyword row, degree_centrality row))
       (calculate_centrality_metrics \<lparr>converges_after = (\<lambda>g. None)\<rparr>
          (snd (create_network \<lparr>graph = None\<rparr>
             (get_cooccurrence_matrix ascii_textlib [str_of ''clean clean room''] None None 5) 2)))
     = [(str_of ''clean'', 3), (str_of ''room'', 1)]"
  by code_simp

lemma create_network_graph:
  "create_network self0 d t = (g, self) \<Longrightarrow> graph self = Some g \<and> g = add_edges t d empty_graph"
  by (auto simp: create_network_def add_edges_def Let_def)

lemma round4_nonneg: "0 \<le> x \<Longrightarrow> 0 \<le> round4 x"
proof -
  assume "0 \<le> x"
  then have "0 \<le> \<lfloor>x * 10000\<rfloor>" by simp
  with round_half_even_lower [of "x * 10000"] have "0 \<le> round_half_even (x * 10000)" by linarith
  then show ?thesis by (simp add: round4_def)
qed

lemma degree_score_nonneg: "0 \<le> degree_score g n"
  by (simp add: degree_score_def)

lemma table_rows:
  assumes "graph self = Some g"
  shows "set (calculate_centrality_metrics N self) = row_of N g ` set (nodes g)"
    and "mset (map keyword (calculate_centrality_metrics N self)) = mset (nodes g)"
proof -
  show "set (calculate_centrality_metrics N self) = row_of N g ` set (nodes g)"
  proof (cases "nodes g = []")
    case True
    with assms show ?thesis by (simp add: calculate_centrality_metrics_empty)
  next
    case False
    with assms show ?thesis by (rule calculate_centrality_metrics_set)
  qed
  show "mset (map keyword (calculate_centrality_metrics N self)) = mset (nodes g)"
  proof (cases "nodes g = []")
    case True
    with assms show ?thesis by (simp add: calculate_centrality_metrics_empty)
  next
    case False
    with assms show ?thesis by (rule calculate_centrality_metrics_keywords)
  qed
qed

text \<open>
  A graph of two separate pairs, on which the power iteration passes its test at the
  second step with the value one half at every node.
\<close>

definition two_pairs :: nx_graph where
  "two_pairs =
     \<lparr>nodes = [str_of ''clean'', str_of ''service'', str_of ''bed'', str_of ''view''],
      edges = [((str_of ''clean'', str_of ''service''), 6), ((str_of ''bed'', str_of ''view''), 2)]\<rparr>"

lemma two_pairs_neighbors:
  "neighbors two_pairs (str_of ''clean'') = [str_of ''service'']"
  "neighbors two_pairs (str_of ''service'') = [str_of ''clean'']"
  "neighbors two_pairs (str_of ''bed'') = [str_of ''view'']"
  "neighbors two_pairs (str_of ''view'') = [str_of ''bed'']"
  by code_simp+

lemma two_pairs_nodes:
  "nodes two_pairs = [str_of ''clean'', str_of ''service'', str_of ''bed'', str_of ''view'']"
  by (simp add: two_pairs_def)

lemma two_pairs_step1:
  "power_step two_pairs (\<lambda>n. 1 / 4) (str_of ''clean'') = 1 / 2"
  "power_step two_pairs (\<lambda>n. 1 / 4) (str_of ''service'') = 1 / 2"
  "power_step two_pairs (\<lambda>n. 1 / 4) (str_of ''bed'') = 1 / 2"
  "power_step two_pairs (\<lambda>n. 1 / 4) (str_of ''view'') = 1 / 2"
  by (simp_all add: power_step_def Let_def two_pairs_nodes two_pairs_neighbors hypot_def power2_eq_square)

lemma two_pairs_step2:
  "power_step two_pairs (power_step two_pairs (\<lambda>n. 1 / 4)) (str_of ''clean'') = 1 / 2"
  "power_step two_pairs (power_step two_pairs (\<lambda>n. 1 / 4)) (str_of ''service'') = 1 / 2"
  "power_step two_pairs (power_step two_pairs (\<lambda>n. 1 / 4)) (str_of ''bed'') = 1 / 2"
  "power_step two_pairs (power_step two_pairs (\<lambda>n. 1 / 4)) (str_of ''view'') = 1 / 2"
  by (simp_all add: power_step_def [of two_pairs "power_step two_pairs (\<lambda>n. 1 / 4)"] Let_def
      two_pairs_nodes two_pairs_neighbors two_pairs_step1 hypot_def power2_eq_square)

lemma two_pairs_scores:
  "degree_score two_pairs (str_of ''clean'') = 1 / 3"
  "degree_score two_pairs (str_of ''service'') = 1 / 3"
  "degree_score two_pairs (str_of ''bed'') = 1 / 3"
  "degree_score two_pairs (str_of ''view'') = 1 / 3"
  "nx_betweenness_centrality two_pairs (str_of ''clean'') = 0"
  "nx_betweenness_centrality two_pairs (str_of ''service'') = 0"
  "nx_betweenness_centrality two_pairs (str_of ''bed'') = 0"
  "nx_betweenness_centrality two_pairs (str_of ''view'') = 0"
  "nx_closeness_centrality two_pairs (str_of ''clean'') = 1 / 3"
  "nx_closeness_centrality two_pairs (str_of ''service'') = 1 / 3"
  "nx_closeness_centrality two_pairs (str_of ''bed'') = 1 / 3"
  "nx_closeness_centrality two_pairs (str_of ''view'') = 1 / 3"
  by code_simp+

lemma round4_values: "round4 (1 / 3) = 3333 / 10000" "round4 (1 / 2) = 1 / 2"
  by code_simp+

lemma two_pairs_eigenvector:
  "nx_eigenvector_centrality \<lparr>converges_after = (\<lambda>g. Some 2)\<rparr> two_pairs 1000
     = Inr (power_step two_pairs (power_step two_pairs (\<lambda>n. 1 / 4)))"
  by (simp add: nx_eigenvector_centrality_def two_pairs_nodes numeral_2_eq_2)

lemma two_pairs_table:
  "calculate_centrality_metrics \<lparr>converges_after = (\<lambda>g. Some 2)\<rparr> \<lparr>graph = Some two_pairs\<rparr>
   = [\<lparr>keyword = str_of ''clean'', degree_centrality = 3333 / 10000, betweenness_centrality = 0,
       closeness_centrality = 3333 / 10000, eigenvector_centrality = 1 / 2\<rparr>,
      \<lparr>keyword = str_of ''service'', degree_centrality = 3333 / 10000, betweenness_centrality = 0,
       closeness_centrality = 3333 / 10000, eigenvector_centrality = 1 / 2\<rparr>,
      \<lparr>keyword = str_of ''bed'', degree_centrality = 3333 / 10000, betweenness_centrality = 0,
       closeness_centrality = 3333 / 10000, eigenvector_centrality = 1 / 2\<rparr>,
      \<lparr>keyword = str_of ''view'', degree_centrality = 3333 / 10000, betweenness_centrality = 0,
       closeness_centrality = 3333 / 10000, eigenvector_centrality = 1 / 2\<rparr>]"
proof -
  let ?N = "\<lparr>converges_after = (\<lambda>g. Some 2)\<rparr>"
  have "calculate_centrality_metrics ?N \<lparr>graph = Some two_pairs\<rparr>
        = sort_key (\<lambda>row. - degree_centrality row) (map (row_of ?N two_pairs) (nodes two_pairs))"
    by (rule calculate_centrality_metrics_rows) (simp_all add: two_pairs_nodes)
  then show ?thesis
    by (simp add: two_pairs_nodes row_of_def eigenvector_score_def two_pairs_eigenvector
        two_pairs_scores two_pairs_step2 round4_values round4_zero)
qed

text \<open>
  C4 (amended): for every graph built by \<open>create_network\<close>, the table has exactly one row
  per graph node (the nodes are distinct and the keywords of the rows are the nodes); in
  every row the four scores are the values of the networkx routines at that node rounded
  to four places, the eigenvector value being 0 on non-convergence; the betweenness,
  closeness and eigenvector scores lie in [0,1] and the degree score is at least 0; and the
  degree score is at most 1 when the graph has no self-loop.
\<close>

theorem centrality_table:
  assumes "create_network self0 d t = (g, self)"
  shows "mset (map keyword (calculate_centrality_metrics N self)) = mset (nodes g)
       \<and> distinct (nodes g)
       \<and> list_all (\<lambda>row.
            (\<exists>v. (keyword row, v) \<in> set (nx_degree_centrality g) \<and> degree_centrality row = round4 v)
            \<and> betweenness_centrality row = round4 (nx_betweenness_centrality g (keyword row))
            \<and> closeness_centrality row = round4 (nx_closeness_centrality g (keyword row))
            \<and> eigenvector_centrality row
                = round4 (case nx_eigenvector_centrality N g 1000 of
                            Inl e \<Rightarrow> 0 | Inr score \<Rightarrow> score (keyword row)))
           (calculate_centrality_metrics N self)
       \<and> list_all (\<lambda>row. 0 \<le> degree_centrality row
                      \<and> 0 \<le> betweenness_centrality row \<and> betweenness_centrality row \<le> 1
                      \<and> 0 \<le> closeness_centrality row \<and> closeness_centrality row \<le> 1
                      \<and> 0 \<le> eigenvector_centrality row \<and> eigenvector_centrality row \<le> 1)
           (calculate_centrality_metrics N self)
       \<and> ((\<forall>w. \<not> has_edge g w w) \<longrightarrow>
            list_all (\<lambda>row. degree_centrality row \<le> 1) (calculate_centrality_metrics N self))
       \<and> (nx_eigenvector_centrality N g 1000 = Inl e \<longrightarrow>
            list_all (\<lambda>row. eigenvector_centrality row = 0) (calculate_centrality_metrics N self))"
proof -
  let ?rows = "calculate_centrality_metrics N self"
  from assms have gs: "graph self = Some g" and ge: "g = add_edges t d empty_graph"
    using create_network_graph by blast+
  have rows: "set ?rows = row_of N g ` set (nodes g)"
    and keys: "mset (map keyword ?rows) = mset (nodes g)"
    using gs by (rule table_rows)+
  have "graph_ok g" unfolding ge by (rule add_edges_ok) (rule empty_graph_ok)
  then have dn: "distinct (nodes g)" by (simp add: graph_ok_def)
  have closed: "set (neighbors g m) \<subseteq> set (nodes g)" for m
    using add_edges_edge_nodes [OF ge] by (rule neighbors_subset)
  have vals: "list_all (\<lambda>row.
            (\<exists>v. (keyword row, v) \<in> set (nx_degree_centrality g) \<and> degree_centrality row = round4 v)
            \<and> betweenness_centrality row = round4 (nx_betweenness_centrality g (keyword row))
            \<and> closeness_centrality row = round4 (nx_closeness_centrality g (keyword row))
            \<and> eigenvector_centrality row
                = round4 (case nx_eigenvector_centrality N g 1000 of
                            Inl e \<Rightarrow> 0 | Inr score \<Rightarrow> score (keyword row))) ?rows"
    unfolding list_all_iff rows
  proof (intro ballI)
    fix row assume "row \<in> row_of N g ` set (nodes g)"
    then obtain n where n: "n \<in> set (nodes g)" and row: "row = row_of N g n" by blast
    from n have "(n, degree_score g n) \<in> set (nx_degree_centrality g)"
      by (simp add: nx_degree_centrality_map)
    then have "\<exists>v. (keyword row, v) \<in> set (nx_degree_centrality g) \<and> degree_centrality row = round4 v"
      unfolding row by (intro exI [of _ "degree_score g n"]) (simp add: row_of_def)
    then show "(\<exists>v. (keyword row, v) \<in> set (nx_degree_centrality g) \<and> degree_centrality row = round4 v)
            \<and> betweenness_centrality row = round4 (nx_betweenness_centrality g (keyword row))
            \<and> closeness_centrality row = round4 (nx_closeness_centrality g (keyword row))
            \<and> eigenvector_centrality row
                = round4 (case nx_eigenvector_centrality N g 1000 of
                            Inl e \<Rightarrow> 0 | Inr score \<Rightarrow> score (keyword row))"
      by (simp add: row row_of_def eigenvector_score_def split: sum.splits)
  qed
  have unit: "list_all (\<lambda>row. 0 \<le> degree_centrality row
                      \<and> 0 \<le> betweenness_centrality row \<and> betweenness_centrality row \<le> 1
                      \<and> 0 \<le> closeness_centrality row \<and> closeness_centrality row \<le> 1
                      \<and> 0 \<le> eigenvector_centrality row \<and> eigenvector_centrality row \<le> 1) ?rows"
    unfolding list_all_iff rows
  proof (intro ballI)
    fix row assume "row \<in> row_of N g ` set (nodes g)"
    then obtain n where n: "n \<in> set (nodes g)" and row: "row = row_of N g n" by blast
    have "0 \<le> round4 (degree_score g n)" by (rule round4_nonneg) (rule degree_score_nonneg)
    moreover from dn n have "0 \<le> round4 (nx_betweenness_centrality g n)
        \<and> round4 (nx_betweenness_centrality g n) \<le> 1"
      by (intro round4_unit) (simp_all add: betweenness_unit)
    moreover from closed dn n have "0 \<le> round4 (nx_closeness_centrality g n)
        \<and> round4 (nx_closeness_centrality g n) \<le> 1"
      by (intro round4_unit) (simp_all add: closeness_unit)
    moreover from n have "0 \<le> round4 (eigenvector_score N g n)
        \<and> round4 (eigenvector_score N g n) \<le> 1"
      by (intro round4_unit) (simp_all add: eigenvector_score_unit)
    ultimately show "0 \<le> degree_centrality row
                      \<and> 0 \<le> betweenness_centrality row \<and> betweenness_centrality row \<le> 1
                      \<and> 0 \<le> closeness_centrality row \<and> closeness_centrality row \<le> 1
                      \<and> 0 \<le> eigenvector_centrality row \<and> eigenvector_centrality row \<le> 1"
      by (simp add: row row_of_def)
  qed
  have deg: "list_all (\<lambda>row. degree_centrality row \<le> 1) ?rows"
    if nl: "\<forall>w. \<not> has_edge g w w"
  proof -
    have "round4 (degree_score g n) \<le> 1" if "n \<in> set (nodes g)" for n
    proof -
      from ge nl that have "0 \<le> degree_score g n \<and> degree_score g n \<le> 1"
        by (rule degree_score_unit)
      then show ?thesis by (simp add: round4_unit)
    qed
    then show ?thesis by (auto simp: list_all_iff rows row_of_def)
  qed
  have eig0: "list_all (\<lambda>row. eigenvector_centrality row = 0) ?rows"
    if "nx_eigenvector_centrality N g 1000 = Inl e"
    using that by (auto simp: list_all_iff rows row_of_def eigenvector_score_def round4_zero)
  from keys dn vals unit deg eig0 show ?thesis by blast
qed

theorem centrality_table_witness:
  "create_network \<lparr>graph = None\<rparr>
     [((str_of ''clean'', str_of ''service''), 6), ((str_of ''bed'', str_of ''view''), 2)] 2
   = (two_pairs, \<lparr>graph = Some two_pairs\<rparr>)
   \<and> (\<forall>w. \<not> has_edge two_pairs w w)
   \<and> calculate_centrality_metrics \<lparr>converges_after = (\<lambda>g. Some 2)\<rparr> \<lparr>graph = Some two_pairs\<rparr>
     = [\<lparr>keyword = str_of ''clean'', degree_centrality = 3333 / 10000, betweenness_centrality = 0,
         closeness_centrality = 3333 / 10000, eigenvector_centrality = 1 / 2\<rparr>,
        \<lparr>keyword = str_of ''service'', degree_centrality = 3333 / 10000, betweenness_centrality = 0,
         closeness_centrality = 3333 / 10000, eigenvector_centrality = 1 / 2\<rparr>,
        \<lparr>keyword = str_of ''bed'', degree_centrality = 3333 / 10000, betweenness_centrality = 0,
         closeness_centrality = 3333 / 10000, eigenvector_centrality = 1 / 2\<rparr>,
        \<lparr>keyword = str_of ''view'', degree_centrality = 3333 / 10000, betweenness_centrality = 0,
         closeness_centrality = 3333 / 10000, eigenvector_centrality = 1 / 2\<rparr>]
   \<and> mset (map keyword (calculate_centrality_metrics \<lparr>converges_after = (\<lambda>g. Some 2)\<rparr>
                            \<lparr>graph = Some two_pairs\<rparr>))
     = mset (nodes two_pairs)
   \<and> list_all (\<lambda>row. 0 \<le> degree_centrality row \<and> degree_centrality row \<le> 1
                  \<and> 0 \<le> betweenness_centrality row \<and> betweenness_centrality row \<le> 1
                  \<and> 0 \<le> closeness_centrality row \<and> closeness_centrality row \<le> 1
                  \<and> 0 \<le> eigenvector_centrality row \<and> eigenvector_centrality row \<le> 1)
       (calculate_centrality_metrics \<lparr>converges_after = (\<lambda>g. Some 2)\<rparr> \<lparr>graph = Some two_pairs\<rparr>)
   \<and> nx_eigenvector_centrality \<lparr>converges_after = (\<lambda>g. None)\<rparr> two_pairs 1000
     = Inl PowerIterationFailedConvergence
   \<and> list_all (\<lambda>row. eigenvector_centrality row = 0)
       (calculate_centrality_metrics \<lparr>converges_after = (\<lambda>g. None)\<rparr> \<lparr>graph = Some two_pairs\<rparr>)"
proof -
  let ?N = "\<lparr>converges_after = (\<lambda>g. Some 2)\<rparr>"
  let ?rows = "calculate_centrality_metrics ?N \<lparr>graph = Some two_pairs\<rparr>"
  have cn: "create_network \<lparr>graph = None\<rparr>
     [((str_of ''clean'', str_of ''service''), 6), ((str_of ''bed'', str_of ''view''), 2)] 2
     = (two_pairs, \<lparr>graph = Some two_pairs\<rparr>)"
    by code_simp
  have nl: "\<forall>w. \<not> has_edge two_pairs w w"
    by (simp add: has_edge_def same_edge_def two_pairs_def str_of_def)
  note t = centrality_table [OF cn, of ?N PowerIterationFailedConvergence]
  from t have k: "mset (map keyword ?rows) = mset (nodes two_pairs)" by blast
  from t have u: "list_all (\<lambda>row. 0 \<le> degree_centrality row
                      \<and> 0 \<le> betweenness_centrality row \<and> betweenness_centrality row \<le> 1
                      \<and> 0 \<le> closeness_centrality row \<and> closeness_centrality row \<le> 1
                      \<and> 0 \<le> eigenvector_centrality row \<and> eigenvector_centrality row \<le> 1) ?rows"
    by blast
  from t nl have d: "list_all (\<lambda>row. degree_centrality row \<le> 1) ?rows" by blast
  from u d have "list_all (\<lambda>row. 0 \<le> degree_centrality row \<and> degree_centrality row \<le> 1
                  \<and> 0 \<le> betweenness_centrality row \<and> betweenness_centrality row \<le> 1
                  \<and> 0 \<le> closeness_centrality row \<and> closeness_centrality row \<le> 1
                  \<and> 0 \<le> eigenvector_centrality row \<and> eigenvector_centrality row \<le> 1) ?rows"
    by (simp add: list_all_iff)
  then have r: "list_all (\<lambda>row. 0 \<le> degree_centrality row \<and> degree_centrality row \<le> 1
                  \<and> 0 \<le> betweenness_centrality row \<and> betweenness_centrality row \<le> 1
                  \<and> 0 \<le> closeness_centrality row \<and> closeness_centrality row \<le> 1
                  \<and> 0 \<le> eigenvector_centrality row \<and> eigenvector_centrality row \<le> 1) ?rows" .
  have f: "nx_eigenvector_centrality \<lparr>converges_after = (\<lambda>g. None)\<rparr> two_pairs 1000
           = Inl PowerIterationFailedConvergence"
    by (simp add: nx_eigenvector_centrality_def two_pairs_nodes)
  from centrality_table [OF cn, of "\<lparr>converges_after = (\<lambda>g. None)\<rparr>"
         PowerIterationFailedConvergence] f
  have z: "list_all (\<lambda>row. eigenvector_centrality row = 0)
       (calculate_centrality_metrics \<lparr>converges_after = (\<lambda>g. None)\<rparr> \<lparr>graph = Some two_pairs\<rparr>)"
    by blast
  from cn nl two_pairs_table k r f z show ?thesis by blast
qed

section \<open>Topic modelling needs five documents\<close>

text \<open>
  \<open>fit_lda_model\<close> itself does not count its documents: whenever the vectorizer and the
  topic fit succeed it returns the fitted model.  The check is in the caller.
\<close>

lemma fit_lda_model_success:
  assumes "texts \<noteq> []" and "\<not> list_all (\<lambda>text. strip L text = []) texts"
    and "cv_fit_transform S max_features texts = Inr (vocab, m)"
    and "sum_list (map sum_list m) \<noteq> 0"
    and "lda_fit_transform S n_topics m = Inr (comps, doc_topic)"
  shows "fit_lda_model L S self texts n_topics max_features =
           (Some (LatentDirichletAllocation n_topics (Some comps)),
            \<lparr>lda_model = Some (LatentDirichletAllocation n_topics (Some comps)),
             vectorizer = Some (CountVectorizer max_features (Some vocab)),
             doc_topic_matrix = Some doc_topic\<rparr>)"
  using assms by (simp add: fit_lda_model_def Let_def)

text \<open>
  C2 (as stated): for every list of fewer than 5 filtered documents supplied to the topic
  modeler the result is \<open>None\<close> and no fit is attempted.  This fails for the topic modeler
  itself: \<open>fit_lda_model\<close> on the four documents of \<open>four_docs\<close> vectorizes them, fits and
  returns the model.
\<close>

theorem fit_lda_model_four_documents_counterexample:
  "length four_docs < 5
   \<and> fst (fit_lda_model ascii_textlib sample_sklib new_topic_modeler four_docs 2 100) \<noteq> None
   \<and> lda_model (snd (fit_lda_model ascii_textlib sample_sklib new_topic_modeler four_docs 2 100))
     = fst (fit_lda_model ascii_textlib sample_sklib new_topic_modeler four_docs 2 100)
   \<and> vectorizer (snd (fit_lda_model ascii_textlib sample_sklib new_topic_modeler four_docs 2 100))
     = Some (CountVectorizer 100 (Some [str_of ''bed'', str_of ''clean'', str_of ''room'']))
   \<and> doc_topic_matrix
       (snd (fit_lda_model ascii_textlib sample_sklib new_topic_modeler four_docs 2 100)) \<noteq> None"
  by code_simp

text \<open>
  C2 (amended): in \<open>perform_realtime_analysis\<close> the filtered documents are the joined
  keyword lists of the non-blank cleaned texts; whenever there are fewer than 5 of them the
  topic model of the result is \<open>None\<close> whatever the documents are and the topic modeler is
  left as it was, since \<open>fit_lda_model\<close> is not called; with 5 or more the topic model is
  what \<open>fit_lda_model\<close> returns; and with no non-blank text the whole result is \<open>None\<close> and
  the session is unchanged.  \<open>fit_lda_model\<close> itself has no such test: for any number of
  documents it returns the fitted model whenever vectorization and the fit succeed.
\<close>

theorem fewer_than_five_documents:
  "(filter (\<lambda>text. strip L text \<noteq> []) (map (clean_text L) data) = [] \<longrightarrow>
      perform_realtime_analysis L S ss data exclude_words include_words n_topics min_frequency
        = (None, ss))
   \<and> (perform_realtime_analysis L S ss data exclude_words include_words n_topics min_frequency
         = (Some (network_graph, filtered_texts, total_texts, topic_model), ss') \<longrightarrow>
        filtered_texts
          = map (join [32])
              (filter (\<lambda>keywords. keywords \<noteq> [])
                 (map (\<lambda>text. extract_keywords L text exclude_words include_words)
                    (filter (\<lambda>text. strip L text \<noteq> []) (map (clean_text L) data))))
      \<and> (length filtered_texts < 5 \<longrightarrow>
            topic_model = None \<and> topic_modeler ss' = topic_modeler ss)
      \<and> (5 \<le> length filtered_texts \<longrightarrow>
            (topic_model, topic_modeler ss')
              = fit_lda_model L S (topic_modeler ss) filtered_texts n_topics 100))
   \<and> (texts \<noteq> [] \<and> \<not> list_all (\<lambda>text. strip L text = []) texts
       \<and> cv_fit_transform S max_features texts = Inr (vocab, m)
       \<and> sum_list (map sum_list m) \<noteq> 0
       \<and> lda_fit_transform S k m = Inr (comps, doc_topic) \<longrightarrow>
        fst (fit_lda_model L S self texts k max_features)
          = Some (LatentDirichletAllocation k (Some comps)))"
proof -
  have a: "perform_realtime_analysis L S ss data exclude_words include_words n_topics min_frequency
        = (None, ss)"
    if "filter (\<lambda>text. strip L text \<noteq> []) (map (clean_text L) data) = []"
    using that by (simp add: perform_realtime_analysis_def Let_def)
  have b: "filtered_texts
          = map (join [32])
              (filter (\<lambda>keywords. keywords \<noteq> [])
                 (map (\<lambda>text. extract_keywords L text exclude_words include_words)
                    (filter (\<lambda>text. strip L text \<noteq> []) (map (clean_text L) data))))
      \<and> (length filtered_texts < 5 \<longrightarrow>
            topic_model = None \<and> topic_modeler ss' = topic_modeler ss)
      \<and> (5 \<le> length filtered_texts \<longrightarrow>
            (topic_model, topic_modeler ss')
              = fit_lda_model L S (topic_modeler ss) filtered_texts n_topics 100)"
    if "perform_realtime_analysis L S ss data exclude_words include_words n_topics min_frequency
         = (Some (network_graph, filtered_texts, total_texts, topic_model), ss')"
    using that
    by (auto simp: perform_realtime_analysis_def Let_def split: if_splits prod.splits)
  have c: "fst (fit_lda_model L S self texts k max_features)
          = Some (LatentDirichletAllocation k (Some comps))"
    if "texts \<noteq> [] \<and> \<not> list_all (\<lambda>text. strip L text = []) texts
       \<and> cv_fit_transform S max_features texts = Inr (vocab, m)
       \<and> sum_list (map sum_list m) \<noteq> 0
       \<and> lda_fit_transform S k m = Inr (comps, doc_topic)"
    using that by (simp add: fit_lda_model_success)
  from a b c show ?thesis by blast
qed

theorem fewer_than_five_documents_witness:
  "perform_realtime_analysis ascii_textlib sample_sklib new_session
     [None, Some (str_of ''12 !'')] None None 5 2 = (None, new_session)
   \<and> perform_realtime_analysis ascii_textlib sample_sklib new_session
       [Some (str_of ''Room 12 was clean!''), None, Some (str_of ''bed, view'')] None None 5 2
     = (Some (\<lparr>nodes = [str_of ''Room'', str_of ''was'', str_of ''clean'', str_of ''bed'', str_of ''view''],
               edges = [((str_of ''Room'', str_of ''was''), 2), ((str_of ''Room'', str_of ''clean''), 2),
                        ((str_of ''clean'', str_of ''was''), 2), ((str_of ''bed'', str_of ''view''), 2)]\<rparr>,
              [str_of ''Room was clean'', str_of ''bed view''], 2, None),
        \<lparr>network_analyzer = \<lparr>graph = Some
            \<lparr>nodes = [str_of ''Room'', str_of ''was'', str_of ''clean'', str_of ''bed'', str_of ''view''],
             edges = [((str_of ''Room'', str_of ''was''), 2), ((str_of ''Room'', str_of ''clean''), 2),
                      ((str_of ''clean'', str_of ''was''), 2), ((str_of ''bed'', str_of ''view''), 2)]\<rparr>\<rparr>,
         topic_modeler = new_topic_modeler\<rparr>)
   \<and> length [str_of ''Room was clean'', str_of ''bed view''] < 5
   \<and> topic_modeler
        (snd (perform_realtime_analysis ascii_textlib sample_sklib new_session
           [Some (str_of ''Room 12 was clean!''), None, Some (str_of ''bed, view'')] None None 5 2))
       = topic_modeler new_session
   \<and> perform_realtime_analysis ascii_textlib sample_sklib new_session
       (map Some sample_docs) None None 2 2
     = (Some (\<lparr>nodes = [str_of ''clean'', str_of ''room'', str_of ''bed'', str_of ''view''],
               edges = [((str_of ''clean'', str_of ''room''), 2), ((str_of ''bed'', str_of ''clean''), 2),
                        ((str_of ''bed'', str_of ''room''), 2), ((str_of ''clean'', str_of ''view''), 2),
                        ((str_of ''bed'', str_of ''view''), 2)]\<rparr>,
              sample_docs, 5,
              Some (LatentDirichletAllocation 2 (Some [[1, 1, 1, 1], [1, 1, 1, 1]]))),
        \<lparr>network_analyzer = \<lparr>graph = Some
            \<lparr>nodes = [str_of ''clean'', str_of ''room'', str_of ''bed'', str_of ''view''],
             edges = [((str_of ''clean'', str_of ''room''), 2), ((str_of ''bed'', str_of ''clean''), 2),
                      ((str_of ''bed'', str_of ''room''), 2), ((str_of ''clean'', str_of ''view''), 2),
                      ((str_of ''bed'', str_of ''view''), 2)]\<rparr>\<rparr>,
         topic_modeler = fitted_modeler\<rparr>)
   \<and> (Some (LatentDirichletAllocation 2 (Some [[1, 1, 1, 1], [1, 1, 1, 1]])), fitted_modeler)
     = fit_lda_model ascii_textlib sample_sklib (topic_modeler new_session) sample_docs 2 100
   \<and> fst (fit_lda_model ascii_textlib sample_sklib new_topic_modeler four_docs 2 100)
     = Some (LatentDirichletAllocation 2 (Some [[1, 1, 1], [1, 1, 1]]))"
proof -
  let ?g = "\<lparr>nodes = [str_of ''Room'', str_of ''was'', str_of ''clean'', str_of ''bed'', str_of ''view''],
             edges = [((str_of ''Room'', str_of ''was''), 2), ((str_of ''Room'', str_of ''clean''), 2),
                      ((str_of ''clean'', str_of ''was''), 2), ((str_of ''bed'', str_of ''view''), 2)]\<rparr>"
  let ?ss' = "\<lparr>network_analyzer = \<lparr>graph = Some ?g\<rparr>, topic_modeler = new_topic_modeler\<rparr>"
  let ?g5 = "\<lparr>nodes = [str_of ''clean'', str_of ''room'', str_of ''bed'', str_of ''view''],
              edges = [((str_of ''clean'', str_of ''room''), 2), ((str_of ''bed'', str_of ''clean''), 2),
                       ((str_of ''bed'', str_of ''room''), 2), ((str_of ''clean'', str_of ''view''), 2),
                       ((str_of ''bed'', str_of ''view''), 2)]\<rparr>"
  let ?model = "LatentDirichletAllocation 2 (Some [[1, 1, 1, 1], [1, 1, 1, 1]])"
  have none: "filter (\<lambda>text. strip ascii_textlib text \<noteq> [])
                (map (clean_text ascii_textlib) [None, Some (str_of ''12 !'')]) = []"
    by code_simp
  have run: "perform_realtime_analysis ascii_textlib sample_sklib new_session
     [Some (str_of ''Room 12 was clean!''), None, Some (str_of ''bed, view'')] None None 5 2
     = (Some (?g, [str_of ''Room was clean'', str_of ''bed view''], 2, None), ?ss')"
    by code_simp
  have few: "length [str_of ''Room was clean'', str_of ''bed view''] < 5" by simp
  have run5: "perform_realtime_analysis ascii_textlib sample_sklib new_session
       (map Some sample_docs) None None 2 2
     = (Some (?g5, sample_docs, 5, Some ?model),
        \<lparr>network_analyzer = \<lparr>graph = Some ?g5\<rparr>, topic_modeler = fitted_modeler\<rparr>)"
    by code_simp
  have five: "5 \<le> length sample_docs" by (simp add: sample_docs_def)
  have four: "four_docs \<noteq> [] \<and> \<not> list_all (\<lambda>text. strip ascii_textlib text = []) four_docs
       \<and> cv_fit_transform sample_sklib 100 four_docs
           = Inr ([str_of ''bed'', str_of ''clean'', str_of ''room''],
                  [[0, 1, 1], [1, 1, 0], [1, 0, 1], [0, 1, 0]])
       \<and> sum_list (map sum_list [[0, 1, 1], [1, 1, 0], [1, 0, 1], [0, 1, 0 :: nat]]) \<noteq> 0
       \<and> lda_fit_transform sample_sklib 2 [[0, 1, 1], [1, 1, 0], [1, 0, 1], [0, 1, 0]]
           = Inr ([[1, 1, 1], [1, 1, 1]],
                  [[1 / 2, 1 / 2], [1 / 2, 1 / 2], [1 / 2, 1 / 2], [1 / 2, 1 / 2]])"
    by code_simp
  from fewer_than_five_documents [where L = ascii_textlib and data = "[None, Some (str_of ''12 !'')]"
      and S = sample_sklib and ss = new_session and exclude_words = None and include_words = None
      and n_topics = 5 and min_frequency = 2] none
  have a: "perform_realtime_analysis ascii_textlib sample_sklib new_session
     [None, Some (str_of ''12 !'')] None None 5 2 = (None, new_session)"
    by blast
  from fewer_than_five_documents [where L = ascii_textlib and S = sample_sklib and ss = new_session
      and data = "[Some (str_of ''Room 12 was clean!''), None, Some (str_of ''bed, view'')]"
      and exclude_words = None and include_words = None and n_topics = 5 and min_frequency = 2
      and network_graph = ?g and filtered_texts = "[str_of ''Room was clean'', str_of ''bed view'']"
      and total_texts = 2 and topic_model = None and ss' = ?ss'] run few
  have "topic_modeler ?ss' = topic_modeler new_session" by blast
  with run have b: "topic_modeler
        (snd (perform_realtime_analysis ascii_textlib sample_sklib new_session
           [Some (str_of ''Room 12 was clean!''), None, Some (str_of ''bed, view'')] None None 5 2))
       = topic_modeler new_session"
    by simp
  from fewer_than_five_documents [where L = ascii_textlib and S = sample_sklib and ss = new_session
      and data = "map Some sample_docs"
      and exclude_words = None and include_words = None and n_topics = 2 and min_frequency = 2
      and network_graph = ?g5 and filtered_texts = sample_docs
      and total_texts = 5 and topic_model = "Some ?model"
      and ss' = "\<lparr>network_analyzer = \<lparr>graph = Some ?g5\<rparr>, topic_modeler = fitted_modeler\<rparr>"]
    run5 five
  have "(Some ?model,
         topic_modeler \<lparr>network_analyzer = \<lparr>graph = Some ?g5\<rparr>, topic_modeler = fitted_modeler\<rparr>)
        = fit_lda_model ascii_textlib sample_sklib (topic_modeler new_session) sample_docs 2 100"
    by blast
  then have c: "(Some ?model, fitted_modeler)
        = fit_lda_model ascii_textlib sample_sklib (topic_modeler new_session) sample_docs 2 100"
    by simp
  from fewer_than_five_documents [where L = ascii_textlib and S = sample_sklib
      and texts = four_docs and max_features = 100 and k = 2 and self = new_topic_modeler
      and vocab = "[str_of ''bed'', str_of ''clean'', str_of ''room'']"
      and m = "[[0, 1, 1], [1, 1, 0], [1, 0, 1], [0, 1, 0]]"
      and comps = "[[1, 1, 1], [1, 1, 1]]"
      and doc_topic = "[[1 / 2, 1 / 2], [1 / 2, 1 / 2], [1 / 2, 1 / 2], [1 / 2, 1 / 2]]"] four
  have d: "fst (fit_lda_model ascii_textlib sample_sklib new_topic_modeler four_docs 2 100)
     = Some (LatentDirichletAllocation 2 (Some [[1, 1, 1], [1, 1, 1]]))"
    by blast
  from a run few b run5 c d show ?thesis by blast
qed

section \<open>A failed fit after a successful one\<close>

text \<open>
  C9 (as stated): \<open>fit_lda_model\<close> reassigns the vectorizer before the fit, so whenever a
  call fails and returns \<open>None\<close> after an earlier successful fit, the model and the
  document-topic matrix are the earlier ones and the vectorizer is the new one, and the
  topic queries then read the stale components against the new vocabulary.  This fails in
  three ways.  When the topic fit itself raises (here for 0 topics), the model has already
  been replaced by the new, unfitted one.  When the texts are empty, the call returns
  \<open>None\<close> before the vectorizer is reassigned.  And when the vectorizer raises, the new
  vectorizer has no vocabulary, so the query raises \<open>NotFittedError\<close> before it reads any
  component.
\<close>

theorem fit_lda_model_failure_counterexample:
  "fst (fit_lda_model ascii_textlib sample_sklib
          fitted_modeler
          sample_docs 0 100) = None
   \<and> lda_model (snd (fit_lda_model ascii_textlib sample_sklib
          fitted_modeler
          sample_docs 0 100))
       \<noteq> lda_model fitted_modeler
   \<and> fst (fit_lda_model ascii_textlib sample_sklib
          fitted_modeler
          [] 2 100) = None
   \<and> vectorizer (snd (fit_lda_model ascii_textlib sample_sklib
          fitted_modeler
          [] 2 100))
       = vectorizer fitted_modeler
   \<and> fst (fit_lda_model ascii_textlib sample_sklib
          fitted_modeler
          [str_of ''clean''] 2 100) = None
   \<and> get_topics_dataframe (snd (fit_lda_model ascii_textlib sample_sklib
          fitted_modeler
          [str_of ''clean''] 2 100)) 8 = Inl NotFittedError"
  by code_simp

text \<open>
  C9 (amended): \<open>fit_lda_model\<close> is not atomic on failure.  With texts that are empty or all
  blank it returns \<open>None\<close> and changes nothing.  Otherwise it reassigns the vectorizer before
  the fit: if the vectorizer raises, or its matrix sums to 0, the call returns \<open>None\<close> with
  the model and the document-topic matrix as they were and the vectorizer the new one
  (unfitted, respectively fitted); if the topic fit raises, the model too is the new,
  unfitted one.  After an earlier successful fit, \<open>get_topics_dataframe\<close> and
  \<open>get_topic_keywords_summary\<close> then do not return the empty result: on the unfitted
  vectorizer they raise \<open>NotFittedError\<close>, and on the fitted one they read the stale model's
  components against the new vocabulary.
\<close>

theorem fit_lda_model_failure:
  "(texts = [] \<or> list_all (\<lambda>text. strip L text = []) texts \<longrightarrow>
      fit_lda_model L S self texts n_topics max_features = (None, self))
   \<and> (texts \<noteq> [] \<and> \<not> list_all (\<lambda>text. strip L text = []) texts \<longrightarrow>
        (cv_fit_transform S max_features texts = Inl e \<longrightarrow>
           fit_lda_model L S self texts n_topics max_features
             = (None, self\<lparr>vectorizer := Some (CountVectorizer max_features None)\<rparr>))
      \<and> (cv_fit_transform S max_features texts = Inr (vocab, m) \<and> sum_list (map sum_list m) = 0 \<longrightarrow>
           fit_lda_model L S self texts n_topics max_features
             = (None, self\<lparr>vectorizer := Some (CountVectorizer max_features (Some vocab))\<rparr>))
      \<and> (cv_fit_transform S max_features texts = Inr (vocab, m) \<and> sum_list (map sum_list m) \<noteq> 0
          \<and> lda_fit_transform S n_topics m = Inl e' \<longrightarrow>
           fit_lda_model L S self texts n_topics max_features
             = (None, self\<lparr>vectorizer := Some (CountVectorizer max_features (Some vocab)),
                           lda_model := Some (LatentDirichletAllocation n_topics None)\<rparr>)))
   \<and> (lda_model self = Some (LatentDirichletAllocation k (Some comps)) \<longrightarrow>
        get_topics_dataframe (self\<lparr>vectorizer := Some (CountVectorizer max_features None)\<rparr>) n_words
          = Inl NotFittedError
      \<and> get_topic_keywords_summary (self\<lparr>vectorizer := Some (CountVectorizer max_features None)\<rparr>)
          = Inl NotFittedError
      \<and> get_topics_dataframe
            (self\<lparr>vectorizer := Some (CountVectorizer max_features (Some vocab))\<rparr>) n_words
          = topics_data vocab n_words 0 comps
      \<and> get_topic_keywords_summary
            (self\<lparr>vectorizer := Some (CountVectorizer max_features (Some vocab))\<rparr>)
          = topic_summary vocab 0 comps)"
  by (auto simp: fit_lda_model_def Let_def get_topics_dataframe_def get_topic_keywords_summary_def)

theorem fit_lda_model_failure_witness:
  "fitted_modeler =
     \<lparr>lda_model = Some (LatentDirichletAllocation 2 (Some [[1, 1, 1, 1], [1, 1, 1, 1]])),
      vectorizer = Some (CountVectorizer 100
        (Some [str_of ''bed'', str_of ''clean'', str_of ''room'', str_of ''view''])),
      doc_topic_matrix = Some [[1 / 2, 1 / 2], [1 / 2, 1 / 2], [1 / 2, 1 / 2], [1 / 2, 1 / 2],
                               [1 / 2, 1 / 2]]\<rparr>
   \<and> fit_lda_model ascii_textlib sample_sklib fitted_modeler [] 2 100 = (None, fitted_modeler)
   \<and> fit_lda_model ascii_textlib sample_sklib fitted_modeler [str_of ''clean''] 2 100
       = (None, fitted_modeler\<lparr>vectorizer := Some (CountVectorizer 100 None)\<rparr>)
   \<and> fit_lda_model ascii_textlib zero_matrix_sklib fitted_modeler [str_of ''clean''] 2 100
       = (None, fitted_modeler\<lparr>vectorizer := Some (CountVectorizer 100 (Some [str_of ''clean'']))\<rparr>)
   \<and> fit_lda_model ascii_textlib sample_sklib fitted_modeler sample_docs 0 100
       = (None, fitted_modeler
            \<lparr>vectorizer := Some (CountVectorizer 100
               (Some [str_of ''bed'', str_of ''clean'', str_of ''room'', str_of ''view''])),
             lda_model := Some (LatentDirichletAllocation 0 None)\<rparr>)
   \<and> get_topics_dataframe (fitted_modeler\<lparr>vectorizer := Some (CountVectorizer 100 None)\<rparr>) 8
       = Inl NotFittedError
   \<and> get_topic_keywords_summary (fitted_modeler\<lparr>vectorizer := Some (CountVectorizer 100 None)\<rparr>)
       = Inl NotFittedError
   \<and> get_topics_dataframe
        (fitted_modeler\<lparr>vectorizer := Some (CountVectorizer 100 (Some [str_of ''clean'']))\<rparr>) 8
       = Inl IndexError
   \<and> get_topic_keywords_summary
        (fitted_modeler\<lparr>vectorizer := Some (CountVectorizer 100 (Some [str_of ''clean'']))\<rparr>)
       = Inl IndexError"
proof -
  let ?comps = "[[1, 1, 1, 1], [1, 1, 1, 1]] :: real list list"
  let ?vocab = "[str_of ''bed'', str_of ''clean'', str_of ''room'', str_of ''view'']"
  let ?m = "[[0, 1, 1, 0], [1, 1, 0, 0], [1, 0, 1, 0], [0, 1, 0, 1], [1, 0, 0, 1]] :: nat list list"
  have st: "fitted_modeler =
     \<lparr>lda_model = Some (LatentDirichletAllocation 2 (Some ?comps)),
      vectorizer = Some (CountVectorizer 100 (Some ?vocab)),
      doc_topic_matrix = Some [[1 / 2, 1 / 2], [1 / 2, 1 / 2], [1 / 2, 1 / 2], [1 / 2, 1 / 2],
                               [1 / 2, 1 / 2]]\<rparr>"
    by code_simp
  have model: "lda_model fitted_modeler = Some (LatentDirichletAllocation 2 (Some ?comps))"
    by (simp add: st)
  have one: "[str_of ''clean''] \<noteq> [] \<and> \<not> list_all (\<lambda>text. strip ascii_textlib text = []) [str_of ''clean'']"
    by code_simp
  have five: "sample_docs \<noteq> [] \<and> \<not> list_all (\<lambda>text. strip ascii_textlib text = []) sample_docs"
    by code_simp
  have cv1: "cv_fit_transform sample_sklib 100 [str_of ''clean''] = Inl ValueError"
    by code_simp
  have cv0: "cv_fit_transform zero_matrix_sklib 100 [str_of ''clean''] = Inr ([str_of ''clean''], [[0]])
             \<and> sum_list (map sum_list [[0 :: nat]]) = 0"
    by (simp add: zero_matrix_sklib_def)
  have cv5: "cv_fit_transform sample_sklib 100 sample_docs = Inr (?vocab, ?m)
             \<and> sum_list (map sum_list ?m) \<noteq> 0
             \<and> lda_fit_transform sample_sklib 0 ?m = Inl ValueError"
    by (simp add: sample_sklib_def)
  have stale8: "topics_data [str_of ''clean''] 8 0 ?comps = Inl IndexError"
    by code_simp
  have stale5: "topic_summary [str_of ''clean''] 0 ?comps = Inl IndexError"
    by code_simp
  have a: "fit_lda_model ascii_textlib sample_sklib fitted_modeler [] 2 100 = (None, fitted_modeler)"
    using fit_lda_model_failure [where texts = "[]" and L = ascii_textlib and S = sample_sklib
        and self = fitted_modeler and n_topics = 2 and max_features = 100]
    by simp
  have b: "fit_lda_model ascii_textlib sample_sklib fitted_modeler [str_of ''clean''] 2 100
       = (None, fitted_modeler\<lparr>vectorizer := Some (CountVectorizer 100 None)\<rparr>)"
    using fit_lda_model_failure [where texts = "[str_of ''clean'']" and L = ascii_textlib
        and S = sample_sklib and self = fitted_modeler and n_topics = 2 and max_features = 100
        and e = ValueError] one cv1
    by blast
  have c: "fit_lda_model ascii_textlib zero_matrix_sklib fitted_modeler [str_of ''clean''] 2 100
       = (None, fitted_modeler\<lparr>vectorizer := Some (CountVectorizer 100 (Some [str_of ''clean'']))\<rparr>)"
    using fit_lda_model_failure [where texts = "[str_of ''clean'']" and L = ascii_textlib
        and S = zero_matrix_sklib and self = fitted_modeler and n_topics = 2 and max_features = 100
        and vocab = "[str_of ''clean'']" and m = "[[0]]"] one cv0
    by blast
  have d: "fit_lda_model ascii_textlib sample_sklib fitted_modeler sample_docs 0 100
       = (None, fitted_modeler
            \<lparr>vectorizer := Some (CountVectorizer 100 (Some ?vocab)),
             lda_model := Some (LatentDirichletAllocation 0 None)\<rparr>)"
    using fit_lda_model_failure [where texts = sample_docs and L = ascii_textlib
        and S = sample_sklib and self = fitted_modeler and n_topics = 0 and max_features = 100
        and vocab = ?vocab and m = ?m and e' = ValueError] five cv5
    by blast
  note q = fit_lda_model_failure [where self = fitted_modeler and k = 2 and comps = ?comps
        and max_features = 100 and vocab = "[str_of ''clean'']" and n_words = 8]
  from q model have q1: "get_topics_dataframe
        (fitted_modeler\<lparr>vectorizer := Some (CountVectorizer 100 None)\<rparr>) 8 = Inl NotFittedError"
    by blast
  from q model have q2: "get_topic_keywords_summary
        (fitted_modeler\<lparr>vectorizer := Some (CountVectorizer 100 None)\<rparr>) = Inl NotFittedError"
    by blast
  from q model have "get_topics_dataframe
        (fitted_modeler\<lparr>vectorizer := Some (CountVectorizer 100 (Some [str_of ''clean'']))\<rparr>) 8
      = topics_data [str_of ''clean''] 8 0 ?comps"
    by blast
  with stale8 have q3: "get_topics_dataframe
        (fitted_modeler\<lparr>vectorizer := Some (CountVectorizer 100 (Some [str_of ''clean'']))\<rparr>) 8
      = Inl IndexError"
    by simp
  from q model have "get_topic_keywords_summary
        (fitted_modeler\<lparr>vectorizer := Some (CountVectorizer 100 (Some [str_of ''clean'']))\<rparr>)
      = topic_summary [str_of ''clean''] 0 ?comps"
    by blast
  with stale5 have q4: "get_topic_keywords_summary
        (fitted_modeler\<lparr>vectorizer := Some (CountVectorizer 100 (Some [str_of ''clean'']))\<rparr>)
      = Inl IndexError"
    by simp
  from st a b c d q1 q2 q3 q4 show ?thesis by blast
qed

end
